theory Spec2Isabelle
  imports Main "HOL-Library.Word"
begin

unbundle bit_operations_syntax

section \<open>The entropy accumulator of src/tls/entropy.c\<close>

text \<open>
  A shallow embedding of \<^verbatim>\<open>src/tls/entropy.c\<close>. Every C function becomes a HOL function
  that takes the context (and whatever else the C function reads) and returns the return
  code together with everything the C function may have written.

  \<^item> \<^verbatim>\<open>unsigned char\<close> is \<open>8 word\<close>, \<^verbatim>\<open>size_t\<close> is \<open>64 word\<close> (the module is built for
    x86-64), \<^verbatim>\<open>int\<close> values (return codes, \<^verbatim>\<open>source_count\<close>, loop counters, flags) are
    \<open>int\<close>: none of them comes near the 32-bit range.
  \<^item> A byte buffer is a \<open>byte list\<close>. A pointer and length pair \<^verbatim>\<open>(data, len)\<close> is the
    list of the \<^verbatim>\<open>len\<close> bytes.
  \<^item> The functions whose C execution can be undefined (an index outside
    \<^verbatim>\<open>ctx->source\<close>, a call through a null \<^verbatim>\<open>f_source\<close>, a poll callback that overruns
    the buffer or reports more bytes than the buffer holds, a \<^verbatim>\<open>memcpy\<close> past the end of
    \<^verbatim>\<open>output\<close>) return an \<open>option\<close>, and \<open>None\<close> stands for exactly these executions.
  \<^item> The spin lock is not modelled: the embedding is of one thread's calls.
\<close>

type_synonym byte = "8 word"
type_synonym size_t = "64 word"

subsection \<open>What entropy.h and the hash primitive provide\<close>

text \<open>
  \<^verbatim>\<open>entropy.h\<close>, \<^verbatim>\<open>entropy_poll.h\<close> and the SHA-256/SHA-512 implementation are not part of
  the sources at hand, so the macros and the hash functions that \<^verbatim>\<open>entropy.c\<close> uses are
  parameters, collected in one record. The two \<^verbatim>\<open>#if\<close> branches on
  \<^verbatim>\<open>MBEDTLS_ENTROPY_SHA512_ACCUMULATOR\<close> differ in the name of the hash only, so one set of
  hash operations stands for both:

  \<^item> \<open>sha_init\<close> is the state that \<^verbatim>\<open>mbedtls_shaN_init\<close> leaves, \<open>sha_free\<close> what
    \<^verbatim>\<open>mbedtls_shaN_free\<close> makes of a state;
  \<^item> \<open>sha_starts_ret\<close>, \<open>sha_update_ret\<close> return the return code and the new state;
  \<^item> \<open>sha_finish_ret\<close> returns the return code, the new state and the
    \<^verbatim>\<open>MBEDTLS_ENTROPY_BLOCK_SIZE\<close> bytes it leaves in its output array;
  \<^item> \<open>sha_ret\<close> (the one-shot hash) returns the return code and the
    \<^verbatim>\<open>MBEDTLS_ENTROPY_BLOCK_SIZE\<close> bytes it leaves in its output array;
  \<^item> \<open>default_sources\<close> are the \<^verbatim>\<open>(f_source, p_source, threshold, strong)\<close> arguments of
    the \<^verbatim>\<open>mbedtls_entropy_add_source\<close> calls that \<^verbatim>\<open>mbedtls_entropy_init\<close> makes under
    the build's configuration (none under \<^verbatim>\<open>MBEDTLS_NO_DEFAULT_ENTROPY_SOURCES\<close>).

  A poll callback \<^verbatim>\<open>f_source(p_source, output, len, &olen)\<close> is a function of the handle,
  the buffer as it finds it, \<^verbatim>\<open>len\<close> and the state \<open>'w\<close> of whatever the sources read
  (clock, hardware generator); it returns its return code, the buffer as it leaves it,
  the value it stores in \<^verbatim>\<open>olen\<close>, and the new outside state.
\<close>

type_synonym ('p, 'w) f_source_ptr =
  "'p option \<Rightarrow> byte list \<Rightarrow> nat \<Rightarrow> 'w \<Rightarrow> (int \<times> byte list \<times> size_t) \<times> 'w"

record ('h, 'p, 'w) env =
  MBEDTLS_ENTROPY_BLOCK_SIZE :: nat
  MBEDTLS_ENTROPY_MAX_SOURCES :: int
  MBEDTLS_ENTROPY_MAX_GATHER :: nat
  MBEDTLS_ENTROPY_SOURCE_MANUAL :: int
  MBEDTLS_ENTROPY_SOURCE_STRONG :: int
  MBEDTLS_ERR_ENTROPY_SOURCE_FAILED :: int
  MBEDTLS_ERR_ENTROPY_MAX_SOURCES :: int
  MBEDTLS_ERR_ENTROPY_NO_SOURCES_DEFINED :: int
  MBEDTLS_ERR_ENTROPY_NO_STRONG_SOURCE :: int
  sha_init :: 'h
  sha_free :: "'h \<Rightarrow> 'h"
  sha_starts_ret :: "'h \<Rightarrow> int \<times> 'h"
  sha_update_ret :: "'h \<Rightarrow> byte list \<Rightarrow> int \<times> 'h"
  sha_finish_ret :: "'h \<Rightarrow> int \<times> 'h \<times> byte list"
  sha_ret :: "byte list \<Rightarrow> int \<times> byte list"
  default_sources :: "(('p, 'w) f_source_ptr option \<times> 'p option \<times> size_t \<times> int) list"

definition ENTROPY_MAX_LOOP :: int where
  "ENTROPY_MAX_LOOP = 256"

subsection \<open>The context\<close>

text \<open>
  \<^verbatim>\<open>mbedtls_entropy_source_state\<close> and \<^verbatim>\<open>mbedtls_entropy_context\<close>, with the fields that
  \<^verbatim>\<open>entropy.c\<close> reads and writes. A null pointer is \<open>None\<close>. \<open>source\<close> is the array
  \<^verbatim>\<open>ctx->source[MBEDTLS_ENTROPY_MAX_SOURCES]\<close>, all of it, and \<open>source_count\<close> the number
  of slots in use.
\<close>

record ('p, 'w) mbedtls_entropy_source_state =
  f_source :: "('p, 'w) f_source_ptr option"
  p_source :: "'p option"
  size :: size_t
  threshold :: size_t
  strong :: int

record ('h, 'p, 'w) mbedtls_entropy_context =
  accumulator_started :: int
  accumulator :: 'h
  source_count :: int
  source :: "('p, 'w) mbedtls_entropy_source_state list"

text \<open>A source slot after \<^verbatim>\<open>memset(.., 0, ..)\<close> or \<^verbatim>\<open>mbedtls_zeroize\<close>.\<close>

definition zero_source :: "('p, 'w) mbedtls_entropy_source_state" where
  "zero_source = \<lparr>f_source = None, p_source = None, size = 0, threshold = 0, strong = 0\<rparr>"

text \<open>\<^verbatim>\<open>mbedtls_zeroize(v, n)\<close>: the first \<open>n\<close> bytes of \<open>v\<close> become 0.\<close>

definition mbedtls_zeroize :: "byte list \<Rightarrow> nat \<Rightarrow> byte list" where
  "mbedtls_zeroize v n = replicate (min n (length v)) 0 @ drop n v"

subsection \<open>mbedtls_entropy_add_source\<close>

text \<open>
  The slot's \<open>size\<close> field is not assigned by the C code: it keeps what it held.
\<close>

definition mbedtls_entropy_add_source ::
  "('h, 'p, 'w) env \<Rightarrow> ('h, 'p, 'w) mbedtls_entropy_context \<Rightarrow>
   ('p, 'w) f_source_ptr option \<Rightarrow> 'p option \<Rightarrow> size_t \<Rightarrow> int \<Rightarrow>
   (int \<times> ('h, 'p, 'w) mbedtls_entropy_context) option" where
  "mbedtls_entropy_add_source E ctx f p thr str =
    (let idx = source_count ctx in
     if idx \<ge> MBEDTLS_ENTROPY_MAX_SOURCES E then
       Some (MBEDTLS_ERR_ENTROPY_MAX_SOURCES E, ctx)
     else if idx < 0 \<or> length (source ctx) \<le> nat idx then None
     else
       Some (0, ctx\<lparr>source := (source ctx)[nat idx :=
                        (source ctx ! nat idx)\<lparr>f_source := f, p_source := p,
                                                threshold := thr, strong := str\<rparr>],
                     source_count := idx + 1\<rparr>))"

subsection \<open>mbedtls_entropy_init and mbedtls_entropy_free\<close>

fun add_sources ::
  "('h, 'p, 'w) env \<Rightarrow> ('h, 'p, 'w) mbedtls_entropy_context \<Rightarrow>
   (('p, 'w) f_source_ptr option \<times> 'p option \<times> size_t \<times> int) list \<Rightarrow>
   ('h, 'p, 'w) mbedtls_entropy_context option" where
  "add_sources E ctx [] = Some ctx"
| "add_sources E ctx ((f, p, thr, str) # ds) =
     (case mbedtls_entropy_add_source E ctx f p thr str of
        None \<Rightarrow> None
      | Some (_, ctx') \<Rightarrow> add_sources E ctx' ds)"

text \<open>
  \<^verbatim>\<open>mbedtls_entropy_init\<close> assigns every field, so its result does not depend on what
  the memory held. The return codes of its \<^verbatim>\<open>mbedtls_entropy_add_source\<close> calls are
  dropped, as in the C code.
\<close>

definition mbedtls_entropy_init ::
  "('h, 'p, 'w) env \<Rightarrow> ('h, 'p, 'w) mbedtls_entropy_context option" where
  "mbedtls_entropy_init E =
     add_sources E
       \<lparr>accumulator_started = 0, accumulator = sha_init E, source_count = 0,
        source = replicate (nat (MBEDTLS_ENTROPY_MAX_SOURCES E)) zero_source\<rparr>
       (default_sources E)"

definition mbedtls_entropy_free ::
  "('h, 'p, 'w) env \<Rightarrow> ('h, 'p, 'w) mbedtls_entropy_context \<Rightarrow>
   ('h, 'p, 'w) mbedtls_entropy_context" where
  "mbedtls_entropy_free E ctx =
     ctx\<lparr>accumulator := sha_free E (accumulator ctx),
         source_count := 0,
         source := replicate (length (source ctx)) zero_source,
         accumulator_started := 0\<rparr>"

subsection \<open>entropy_update and mbedtls_entropy_update_manual\<close>

text \<open>
  \<open>data\<close> is the \<^verbatim>\<open>len\<close> bytes at \<^verbatim>\<open>data\<close>. The local array \<^verbatim>\<open>tmp\<close> is zeroized on every
  path (every exit goes through \<^verbatim>\<open>cleanup\<close>) and is not returned.
  \<open>entropy_update_mix\<close> is the function from the assignment of \<^verbatim>\<open>header\<close> on, with the
  values that \<^verbatim>\<open>p\<close> (the bytes it points to) and \<^verbatim>\<open>use_len\<close> have there.
\<close>

definition entropy_update_mix ::
  "('h, 'p, 'w) env \<Rightarrow> ('h, 'p, 'w) mbedtls_entropy_context \<Rightarrow> byte \<Rightarrow> byte list \<Rightarrow>
   nat \<Rightarrow> int \<times> ('h, 'p, 'w) mbedtls_entropy_context" where
  "entropy_update_mix E ctx source_id p use_len =
    (let header = [source_id, ucast ((of_nat use_len :: size_t) AND 0xFF)];
         (ret, ctx1) =
           (if accumulator_started ctx = 0 then
              (case sha_starts_ret E (accumulator ctx) of
                 (r, a) \<Rightarrow>
                   if r \<noteq> 0 then (r, ctx\<lparr>accumulator := a\<rparr>)
                   else (0, ctx\<lparr>accumulator := a, accumulator_started := 1\<rparr>))
            else (0, ctx\<lparr>accumulator_started := 1\<rparr>))
     in if ret \<noteq> 0 then (ret, ctx1)
        else
          (case sha_update_ret E (accumulator ctx1) header of
             (r, a) \<Rightarrow>
               if r \<noteq> 0 then (r, ctx1\<lparr>accumulator := a\<rparr>)
               else
                 (case sha_update_ret E a (take use_len p) of
                    (r', a') \<Rightarrow> (r', ctx1\<lparr>accumulator := a'\<rparr>))))"

definition entropy_update ::
  "('h, 'p, 'w) env \<Rightarrow> ('h, 'p, 'w) mbedtls_entropy_context \<Rightarrow> byte \<Rightarrow> byte list \<Rightarrow>
   int \<times> ('h, 'p, 'w) mbedtls_entropy_context" where
  "entropy_update E ctx source_id data =
    (let len = length data in
     if len > MBEDTLS_ENTROPY_BLOCK_SIZE E then
       (case sha_ret E data of
          (ret, tmp) \<Rightarrow>
            if ret \<noteq> 0 then (ret, ctx)
            else entropy_update_mix E ctx source_id tmp (MBEDTLS_ENTROPY_BLOCK_SIZE E))
     else entropy_update_mix E ctx source_id data len)"

definition mbedtls_entropy_update_manual ::
  "('h, 'p, 'w) env \<Rightarrow> ('h, 'p, 'w) mbedtls_entropy_context \<Rightarrow> byte list \<Rightarrow>
   int \<times> ('h, 'p, 'w) mbedtls_entropy_context" where
  "mbedtls_entropy_update_manual E ctx data =
     entropy_update E ctx (of_int (MBEDTLS_ENTROPY_SOURCE_MANUAL E)) data"

subsection \<open>entropy_gather_internal and mbedtls_entropy_gather\<close>

text \<open>
  The \<^verbatim>\<open>for\<close> loop leaves in one of three ways: it runs to its end, it jumps to
  \<^verbatim>\<open>cleanup\<close> with the poll callback's return code, or it returns the return code of
  \<^verbatim>\<open>entropy_update\<close> directly. At the loop's end \<^verbatim>\<open>ret\<close> is 0: the loop is only entered
  with \<^verbatim>\<open>source_count \<noteq> 0\<close>, and the last call that assigned \<^verbatim>\<open>ret\<close> returned 0.
\<close>

text \<open>\<^verbatim>\<open>ctx->source[i].size += olen\<close>, an addition of \<^verbatim>\<open>size_t\<close> values (it wraps).\<close>

definition add_size ::
  "('h, 'p, 'w) mbedtls_entropy_context \<Rightarrow> int \<Rightarrow> size_t \<Rightarrow>
   ('h, 'p, 'w) mbedtls_entropy_context" where
  "add_size ctx i olen =
     ctx\<lparr>source := (source ctx)[nat i :=
            (source ctx ! nat i)\<lparr>size := size (source ctx ! nat i) + olen\<rparr>]\<rparr>"

text \<open>
  The model keeps a log of the calls to \<^verbatim>\<open>f_source\<close> that a round makes: the return code
  and the value of \<^verbatim>\<open>olen\<close> of each call, in the order of the calls. The log is not a
  variable of the C function; it records what the function did, so that a property of
  a round can speak of what each source returned. The loop polls the source at index
  \<open>i\<close> in its iteration \<open>i\<close>, so the entry at position \<open>i\<close> is the poll of source \<open>i\<close>.
\<close>

type_synonym poll_log = "(int \<times> size_t) list"

datatype gather_exit =
    Loop_end int      \<comment> \<open>the loop condition failed; the value of \<^verbatim>\<open>have_one_strong\<close>\<close>
  | Goto_cleanup int  \<comment> \<open>\<^verbatim>\<open>goto cleanup\<close> with this \<^verbatim>\<open>ret\<close>\<close>
  | Return_ret int    \<comment> \<open>\<^verbatim>\<open>return ret\<close> inside the loop\<close>

lemma entropy_update_mix_source_count:
  "source_count (snd (entropy_update_mix E ctx sid p n)) = source_count ctx"
  by (simp add: entropy_update_mix_def Let_def split: prod.splits)

lemma entropy_update_source_count:
  "source_count (snd (entropy_update E ctx sid data)) = source_count ctx"
  by (simp add: entropy_update_def Let_def entropy_update_mix_source_count split: prod.splits)

lemma entropy_update_source_count_eq:
  "entropy_update E ctx sid data = (r, ctx') \<Longrightarrow> source_count ctx' = source_count ctx"
  using entropy_update_source_count [of E ctx sid data] by simp

function entropy_gather_loop ::
  "('h, 'p, 'w) env \<Rightarrow> int \<Rightarrow> int \<Rightarrow> ('h, 'p, 'w) mbedtls_entropy_context \<Rightarrow> 'w \<Rightarrow>
   byte list \<Rightarrow> poll_log \<Rightarrow>
   (gather_exit \<times> ('h, 'p, 'w) mbedtls_entropy_context \<times> 'w \<times> byte list \<times> poll_log) option"
  where
  "entropy_gather_loop E i have_one_strong ctx w buf polls =
    (if i < source_count ctx then
       if i < 0 \<or> length (source ctx) \<le> nat i then None
       else
         let have_one_strong' =
               (if strong (source ctx ! nat i) = MBEDTLS_ENTROPY_SOURCE_STRONG E then 1
                else have_one_strong)
         in case f_source (source ctx ! nat i) of
              None \<Rightarrow> None
            | Some f \<Rightarrow>
                (case f (p_source (source ctx ! nat i)) buf (MBEDTLS_ENTROPY_MAX_GATHER E) w of
                   ((ret, buf', olen), w') \<Rightarrow>
                     let polls' = polls @ [(ret, olen)] in
                     if length buf' \<noteq> length buf then None
                     else if ret \<noteq> 0 then Some (Goto_cleanup ret, ctx, w', buf', polls')
                     else if olen > 0 then
                       if unat olen > length buf' then None
                       else
                         (case entropy_update E ctx (of_int i) (take (unat olen) buf') of
                            (ret', ctx') \<Rightarrow>
                              if ret' \<noteq> 0 then Some (Return_ret ret', ctx', w', buf', polls')
                              else
                                entropy_gather_loop E (i + 1) have_one_strong'
                                  (add_size ctx' i olen) w' buf' polls')
                     else entropy_gather_loop E (i + 1) have_one_strong' ctx w' buf' polls')
     else Some (Loop_end have_one_strong, ctx, w, buf, polls))"
  by pat_completeness auto
termination
  by (relation "measure (\<lambda>(E, i, h, ctx, w, buf, polls). nat (source_count ctx - i))")
     (auto simp: add_size_def dest: entropy_update_source_count_eq [OF sym])

declare entropy_gather_loop.simps [simp del]

text \<open>
  \<open>buf\<close> is what the local array \<^verbatim>\<open>buf[MBEDTLS_ENTROPY_MAX_GATHER]\<close> holds when the function
  is entered (C leaves it indeterminate). The function returns the return code, the
  context, the outside state, what the array holds when the function returns, and the
  log of the polls made.
\<close>

definition entropy_gather_internal ::
  "('h, 'p, 'w) env \<Rightarrow> ('h, 'p, 'w) mbedtls_entropy_context \<Rightarrow> 'w \<Rightarrow> byte list \<Rightarrow>
   (int \<times> ('h, 'p, 'w) mbedtls_entropy_context \<times> 'w \<times> byte list \<times> poll_log) option" where
  "entropy_gather_internal E ctx w buf =
    (if source_count ctx = 0 then
       Some (MBEDTLS_ERR_ENTROPY_NO_SOURCES_DEFINED E, ctx, w, buf, [])
     else
       (case entropy_gather_loop E 0 0 ctx w buf [] of
          None \<Rightarrow> None
        | Some (Return_ret ret, ctx', w', buf', polls) \<Rightarrow> Some (ret, ctx', w', buf', polls)
        | Some (Goto_cleanup ret, ctx', w', buf', polls) \<Rightarrow>
            Some (ret, ctx', w', mbedtls_zeroize buf' (MBEDTLS_ENTROPY_MAX_GATHER E), polls)
        | Some (Loop_end have_one_strong, ctx', w', buf', polls) \<Rightarrow>
            Some (if have_one_strong = 0 then MBEDTLS_ERR_ENTROPY_NO_STRONG_SOURCE E else 0,
                  ctx', w', mbedtls_zeroize buf' (MBEDTLS_ENTROPY_MAX_GATHER E), polls)))"

definition mbedtls_entropy_gather ::
  "('h, 'p, 'w) env \<Rightarrow> ('h, 'p, 'w) mbedtls_entropy_context \<Rightarrow> 'w \<Rightarrow> byte list \<Rightarrow>
   (int \<times> ('h, 'p, 'w) mbedtls_entropy_context \<times> 'w \<times> byte list \<times> poll_log) option" where
  "mbedtls_entropy_gather E ctx w buf = entropy_gather_internal E ctx w buf"

subsection \<open>mbedtls_entropy_func\<close>

text \<open>
  The inner \<^verbatim>\<open>for\<close> loop that computes \<^verbatim>\<open>done\<close>: 1 unless a slot in use has
  \<^verbatim>\<open>size < threshold\<close> (an unsigned comparison).
\<close>

definition thresholds_done :: "('h, 'p, 'w) mbedtls_entropy_context \<Rightarrow> int" where
  "thresholds_done ctx =
     (if list_ex (\<lambda>s. size s < threshold s) (take (nat (source_count ctx)) (source ctx))
      then 0 else 1)"

text \<open>
  The \<^verbatim>\<open>do .. while (! done)\<close> loop. \<open>count\<close> is the value of \<^verbatim>\<open>count\<close> before
  \<^verbatim>\<open>count++\<close>; \<open>scratch n\<close> is what the array \<^verbatim>\<open>buf\<close> of the round with that \<^verbatim>\<open>count\<close>
  holds when \<^verbatim>\<open>entropy_gather_internal\<close> is entered. The loop returns the value of
  \<^verbatim>\<open>ret\<close> with which control leaves it: to \<^verbatim>\<open>exit\<close> when it is not 0, to the code below
  when it is 0. \<open>rounds\<close> collects the poll logs of the gather rounds made, one entry
  for each call of \<^verbatim>\<open>entropy_gather_internal\<close>.
\<close>

function entropy_func_loop ::
  "('h, 'p, 'w) env \<Rightarrow> int \<Rightarrow> ('h, 'p, 'w) mbedtls_entropy_context \<Rightarrow> 'w \<Rightarrow>
   (int \<Rightarrow> byte list) \<Rightarrow> poll_log list \<Rightarrow>
   (int \<times> ('h, 'p, 'w) mbedtls_entropy_context \<times> 'w \<times> poll_log list) option" where
  "entropy_func_loop E count ctx w scratch rounds =
    (if count > ENTROPY_MAX_LOOP then
       Some (MBEDTLS_ERR_ENTROPY_SOURCE_FAILED E, ctx, w, rounds)
     else
       (case entropy_gather_internal E ctx w (scratch count) of
          None \<Rightarrow> None
        | Some (ret, ctx', w', _, polls) \<Rightarrow>
            if ret \<noteq> 0 then Some (ret, ctx', w', rounds @ [polls])
            else if thresholds_done ctx' \<noteq> 0 then Some (0, ctx', w', rounds @ [polls])
            else entropy_func_loop E (count + 1) ctx' w' scratch (rounds @ [polls])))"
  by pat_completeness auto
termination
  by (relation
        "measure (\<lambda>(E, count, ctx, w, scratch, rounds). nat (ENTROPY_MAX_LOOP + 1 - count))")
     auto

declare entropy_func_loop.simps [simp del]

text \<open>
  The code after the loop, up to \<^verbatim>\<open>exit\<close>: finish the hash into \<^verbatim>\<open>buf\<close>, restart the
  accumulator and feed \<^verbatim>\<open>buf\<close> back, hash \<^verbatim>\<open>buf\<close> once more, reset the counters and
  copy \<^verbatim>\<open>len\<close> bytes out. The local \<^verbatim>\<open>buf\<close> is zeroized at \<^verbatim>\<open>exit\<close> on every path and
  is not returned.
\<close>

definition entropy_func_reseed ::
  "('h, 'p, 'w) env \<Rightarrow> ('h, 'p, 'w) mbedtls_entropy_context \<Rightarrow> byte list \<Rightarrow> nat \<Rightarrow>
   (int \<times> ('h, 'p, 'w) mbedtls_entropy_context \<times> byte list) option" where
  "entropy_func_reseed E ctx output len =
    (case sha_finish_ret E (accumulator ctx) of
       (r1, a1, buf) \<Rightarrow>
         if r1 \<noteq> 0 then Some (r1, ctx\<lparr>accumulator := a1\<rparr>, output)
         else
           (case sha_starts_ret E (sha_init E) of
              (r2, a2) \<Rightarrow>
                if r2 \<noteq> 0 then Some (r2, ctx\<lparr>accumulator := a2\<rparr>, output)
                else
                  (case sha_update_ret E a2 (take (MBEDTLS_ENTROPY_BLOCK_SIZE E) buf) of
                     (r3, a3) \<Rightarrow>
                       if r3 \<noteq> 0 then Some (r3, ctx\<lparr>accumulator := a3\<rparr>, output)
                       else
                         (case sha_ret E (take (MBEDTLS_ENTROPY_BLOCK_SIZE E) buf) of
                            (r4, buf') \<Rightarrow>
                              if r4 \<noteq> 0 then Some (r4, ctx\<lparr>accumulator := a3\<rparr>, output)
                              else if length output < len then None
                              else
                                Some (0,
                                  ctx\<lparr>accumulator := a3,
                                      source :=
                                        map (\<lambda>s. s\<lparr>size := 0\<rparr>)
                                          (take (nat (source_count ctx)) (source ctx))
                                        @ drop (nat (source_count ctx)) (source ctx)\<rparr>,
                                  take len buf' @ drop len output)))))"

text \<open>
  \<open>output\<close> is the caller's buffer, \<open>len\<close> the requested length. The result holds
  the return code, the context, the outside state, the caller's buffer and the poll
  logs of the gather rounds made.
\<close>

definition mbedtls_entropy_func ::
  "('h, 'p, 'w) env \<Rightarrow> ('h, 'p, 'w) mbedtls_entropy_context \<Rightarrow> 'w \<Rightarrow> (int \<Rightarrow> byte list) \<Rightarrow>
   byte list \<Rightarrow> nat \<Rightarrow>
   (int \<times> ('h, 'p, 'w) mbedtls_entropy_context \<times> 'w \<times> byte list \<times> poll_log list) option"
  where
  "mbedtls_entropy_func E ctx w scratch output len =
    (if len > MBEDTLS_ENTROPY_BLOCK_SIZE E then
       Some (MBEDTLS_ERR_ENTROPY_SOURCE_FAILED E, ctx, w, output, [])
     else
       (case entropy_func_loop E 0 ctx w scratch [] of
          None \<Rightarrow> None
        | Some (ret, ctx', w', rounds) \<Rightarrow>
            if ret \<noteq> 0 then Some (ret, ctx', w', output, rounds)
            else
              (case entropy_func_reseed E ctx' output len of
                 None \<Rightarrow> None
               | Some (ret', ctx'', output') \<Rightarrow> Some (ret', ctx'', w', output', rounds))))"

subsection \<open>Reachable contexts\<close>

text \<open>
  \<open>call E ctx ctx'\<close>: one call of \<^verbatim>\<open>mbedtls_entropy_add_source\<close>,
  \<^verbatim>\<open>mbedtls_entropy_update_manual\<close>, \<^verbatim>\<open>mbedtls_entropy_gather\<close> or \<^verbatim>\<open>mbedtls_entropy_func\<close>,
  with any arguments, any poll results and any return code, takes the context from
  \<open>ctx\<close> to \<open>ctx'\<close>. The reachable contexts are those a caller can produce:
  \<^verbatim>\<open>mbedtls_entropy_init\<close> on any memory, then any sequence of such calls and of
  \<^verbatim>\<open>mbedtls_entropy_free\<close>.
\<close>

inductive call ::
  "('h, 'p, 'w) env \<Rightarrow> ('h, 'p, 'w) mbedtls_entropy_context \<Rightarrow>
   ('h, 'p, 'w) mbedtls_entropy_context \<Rightarrow> bool"
  for E :: "('h, 'p, 'w) env" where
  c_add_source:
    "mbedtls_entropy_add_source E ctx f p thr str = Some (r, ctx') \<Longrightarrow> call E ctx ctx'"
| c_update_manual:
    "mbedtls_entropy_update_manual E ctx data = (r, ctx') \<Longrightarrow> call E ctx ctx'"
| c_gather:
    "mbedtls_entropy_gather E ctx w buf = Some (r, ctx', w', buf', polls) \<Longrightarrow>
     call E ctx ctx'"
| c_func:
    "mbedtls_entropy_func E ctx w scratch output len = Some (r, ctx', w', output', rounds) \<Longrightarrow>
     call E ctx ctx'"

inductive reachable ::
  "('h, 'p, 'w) env \<Rightarrow> ('h, 'p, 'w) mbedtls_entropy_context \<Rightarrow> bool"
  for E :: "('h, 'p, 'w) env" where
  r_init: "mbedtls_entropy_init E = Some ctx \<Longrightarrow> reachable E ctx"
| r_call: "reachable E ctx \<Longrightarrow> call E ctx ctx' \<Longrightarrow> reachable E ctx'"
| r_free: "reachable E ctx \<Longrightarrow> reachable E (mbedtls_entropy_free E ctx)"

subsection \<open>Conditions on the hash and on the sources in use\<close>

text \<open>
  \<open>sha_never_fails\<close>: every call of the hash returns 0, as the software SHA-256 and
  SHA-512 do. \<open>strong_below E ctx i\<close>: one of the slots \<open>0 .. i - 1\<close> is registered as
  strong. \<open>mix_step_fails\<close>: the round that \<^verbatim>\<open>entropy_gather_internal\<close> runs from this
  context, outside state and buffer leaves its loop through the \<^verbatim>\<open>return ret\<close> that
  follows a call of \<^verbatim>\<open>entropy_update\<close> with a return code other than 0.
\<close>

definition sha_never_fails :: "('h, 'p, 'w) env \<Rightarrow> bool" where
  "sha_never_fails E \<longleftrightarrow>
     (\<forall>a. fst (sha_starts_ret E a) = 0) \<and>
     (\<forall>a bs. fst (sha_update_ret E a bs) = 0) \<and>
     (\<forall>a. fst (sha_finish_ret E a) = 0) \<and>
     (\<forall>bs. fst (sha_ret E bs) = 0)"

definition strong_below :: "('h, 'p, 'w) env \<Rightarrow> ('h, 'p, 'w) mbedtls_entropy_context \<Rightarrow> int \<Rightarrow> bool"
  where
  "strong_below E ctx i \<longleftrightarrow>
     (\<exists>j. 0 \<le> j \<and> j < i \<and> strong (source ctx ! nat j) = MBEDTLS_ENTROPY_SOURCE_STRONG E)"

definition mix_step_fails ::
  "('h, 'p, 'w) env \<Rightarrow> ('h, 'p, 'w) mbedtls_entropy_context \<Rightarrow> 'w \<Rightarrow> byte list \<Rightarrow> bool" where
  "mix_step_fails E ctx w buf =
     (case entropy_gather_loop E 0 0 ctx w buf [] of
        Some (Return_ret r, rest) \<Rightarrow> True
      | _ \<Rightarrow> False)"

subsection \<open>A concrete build, to run the model\<close>

text \<open>
  The values of \<^verbatim>\<open>entropy.h\<close> for a SHA-256 build (block size 32, at most 20 sources,
  128 bytes per poll, the manual tag equal to the capacity, the error codes), with a
  stand-in for the hash that keeps the bytes absorbed since the last start and never
  fails; its digest is the last 32 of them in reverse order, padded with zeros. The
  outside state is a number, which the sources defined below increase at each poll.
  The examples below run the model on this build.
\<close>

definition demo_digest :: "byte list \<Rightarrow> byte list" where
  "demo_digest bs = take 32 (rev bs @ replicate 32 0)"

definition demo_env :: "(byte list, unit, nat) env" where
  "demo_env =
    \<lparr>MBEDTLS_ENTROPY_BLOCK_SIZE = 32,
     MBEDTLS_ENTROPY_MAX_SOURCES = 20,
     MBEDTLS_ENTROPY_MAX_GATHER = 128,
     MBEDTLS_ENTROPY_SOURCE_MANUAL = 20,
     MBEDTLS_ENTROPY_SOURCE_STRONG = 1,
     MBEDTLS_ERR_ENTROPY_SOURCE_FAILED = - 60,
     MBEDTLS_ERR_ENTROPY_MAX_SOURCES = - 62,
     MBEDTLS_ERR_ENTROPY_NO_SOURCES_DEFINED = - 64,
     MBEDTLS_ERR_ENTROPY_NO_STRONG_SOURCE = - 61,
     sha_init = [],
     sha_free = (\<lambda>a. []),
     sha_starts_ret = (\<lambda>a. (0, [])),
     sha_update_ret = (\<lambda>a bs. (0, a @ bs)),
     sha_finish_ret = (\<lambda>a. (0, a, demo_digest a)),
     sha_ret = (\<lambda>bs. (0, demo_digest bs)),
     default_sources = []\<rparr>"

text \<open>The context that \<^verbatim>\<open>mbedtls_entropy_init\<close> leaves on this build.\<close>

definition demo_ctx :: "(byte list, unit, nat) mbedtls_entropy_context" where
  "demo_ctx =
    \<lparr>accumulator_started = 0, accumulator = [], source_count = 0,
     source = replicate 20 zero_source\<rparr>"

text \<open>
  \<^verbatim>\<open>entropy_dummy_source\<close> of \<^verbatim>\<open>entropy.c\<close>: it fills the \<^verbatim>\<open>len\<close> bytes with \<^verbatim>\<open>0x2a\<close> and
  reports \<^verbatim>\<open>len\<close> bytes.
\<close>

definition entropy_dummy_source :: "('p, 'w) f_source_ptr" where
  "entropy_dummy_source data output len w =
     ((0, replicate len 0x2a @ drop len output, of_nat len), w)"

text \<open>
  A slot holding the dummy source as the self test registers it (threshold 16, weak),
  and the context after \<open>n\<close> such registrations on the concrete build.
\<close>

definition demo_slot :: "(unit, nat) mbedtls_entropy_source_state" where
  "demo_slot = \<lparr>f_source = Some entropy_dummy_source, p_source = None, size = 0,
                 threshold = 16, strong = 0\<rparr>"

definition demo_filled :: "nat \<Rightarrow> (byte list, unit, nat) mbedtls_entropy_context" where
  "demo_filled n =
    \<lparr>accumulator_started = 0, accumulator = [], source_count = int n,
     source = replicate n demo_slot @ replicate (20 - n) zero_source\<rparr>"

text \<open>
  A strong source that delivers four bytes per poll, the first of them the number of
  polls made so far, and a context with two sources in use: the dummy source (weak,
  threshold 16) and this one (strong, threshold 4). \<open>demo_pair_after\<close> is that context
  after one extraction.
\<close>

definition demo_hw_poll :: "(unit, nat) f_source_ptr" where
  "demo_hw_poll data output len w =
     ((0, [of_nat w, 1, 2, 3] @ drop 4 output, 4), w + 1)"

definition demo_hw_slot :: "(unit, nat) mbedtls_entropy_source_state" where
  "demo_hw_slot = \<lparr>f_source = Some demo_hw_poll, p_source = None, size = 0,
                    threshold = 4, strong = 1\<rparr>"

definition demo_pair :: "(byte list, unit, nat) mbedtls_entropy_context" where
  "demo_pair =
    \<lparr>accumulator_started = 0, accumulator = [], source_count = 2,
     source = [demo_slot, demo_hw_slot] @ replicate 18 zero_source\<rparr>"

definition demo_pair_after :: "(byte list, unit, nat) mbedtls_entropy_context" where
  "demo_pair_after =
    \<lparr>accumulator_started = 1, accumulator = [3, 2, 1, 0, 4, 1] @ replicate 26 42,
     source_count = 2,
     source = [demo_slot, demo_hw_slot] @ replicate 18 zero_source\<rparr>"

text \<open>
  The same context after a second extraction, and the stack contents used for the
  array \<^verbatim>\<open>buf\<close> of every gather round in the runs below.
\<close>

definition demo_pair_after2 :: "(byte list, unit, nat) mbedtls_entropy_context" where
  "demo_pair_after2 =
    \<lparr>accumulator_started = 1, accumulator = [3, 2, 1, 1, 4, 1] @ replicate 26 42,
     source_count = 2,
     source = [demo_slot, demo_hw_slot] @ replicate 18 zero_source\<rparr>"

definition demo_scratch :: "int \<Rightarrow> byte list" where
  "demo_scratch n = replicate 128 0"

text \<open>
  More sources and contexts for the runs below: a source whose poll fails with
  \<^verbatim>\<open>MBEDTLS_ERR_ENTROPY_SOURCE_FAILED\<close>; a context with the four-byte source (its counter
  at 10), the failing source and the dummy source, and that context after one gather
  round; a strong source that returns no bytes, and a context with it alone; and the
  concrete build with a hash whose update call fails with the code of a hardware
  accelerator failure.
\<close>

definition demo_fail_poll :: "(unit, nat) f_source_ptr" where
  "demo_fail_poll data output len w = ((- 60, output, 0), w + 1)"

definition demo_trio :: "(byte list, unit, nat) mbedtls_entropy_context" where
  "demo_trio =
    \<lparr>accumulator_started = 0, accumulator = [], source_count = 3,
     source = [demo_hw_slot\<lparr>size := 10\<rparr>,
               \<lparr>f_source = Some demo_fail_poll, p_source = None, size = 0,
                threshold = 8, strong = 1\<rparr>,
               demo_slot] @ replicate 17 zero_source\<rparr>"

definition demo_trio_after :: "(byte list, unit, nat) mbedtls_entropy_context" where
  "demo_trio_after =
    \<lparr>accumulator_started = 1, accumulator = [0, 4, 0, 1, 2, 3], source_count = 3,
     source = [demo_hw_slot\<lparr>size := 14\<rparr>,
               \<lparr>f_source = Some demo_fail_poll, p_source = None, size = 0,
                threshold = 8, strong = 1\<rparr>,
               demo_slot] @ replicate 17 zero_source\<rparr>"

definition demo_idle_poll :: "(unit, nat) f_source_ptr" where
  "demo_idle_poll data output len w = ((0, output, 0), w + 1)"

definition demo_idle :: "(byte list, unit, nat) mbedtls_entropy_context" where
  "demo_idle =
    \<lparr>accumulator_started = 0, accumulator = [], source_count = 1,
     source = [\<lparr>f_source = Some demo_idle_poll, p_source = None, size = 0,
                threshold = 32, strong = 1\<rparr>] @ replicate 19 zero_source\<rparr>"

definition demo_env_hash_fails :: "(byte list, unit, nat) env" where
  "demo_env_hash_fails = demo_env\<lparr>sha_update_ret := (\<lambda>a bs. (- 55, a))\<rparr>"

text \<open>The concrete build with a hash whose finish call fails.\<close>

definition demo_env_finish_fails :: "(byte list, unit, nat) env" where
  "demo_env_finish_fails = demo_env\<lparr>sha_finish_ret := (\<lambda>a. (- 55, a, []))\<rparr>"

subsection \<open>The header as the specification words it\<close>

text \<open>
  The specification's wording of the two header bytes of a mix operation:
  the source tag and \<open>min(len, 255)\<close>. It is compared with what \<^verbatim>\<open>entropy_update\<close> absorbs.
\<close>

definition spec_header :: "byte \<Rightarrow> byte list \<Rightarrow> byte list" where
  "spec_header source_tag data = [source_tag, of_nat (min (length data) 255)]"

section \<open>Properties of the functions\<close>

subsection \<open>An invariant rule for the loop of entropy_gather_internal\<close>

text \<open>
  To show \<open>Q\<close> of the loop's exit, give an invariant \<open>I\<close> of the loop variables that
  holds at the start, is kept by an iteration that polls nothing and by one that mixes,
  and gives \<open>Q\<close> at each of the three exits.
\<close>

lemma entropy_update_mix_source:
  "source (snd (entropy_update_mix E ctx sid p n)) = source ctx"
  by (simp add: entropy_update_mix_def Let_def split: prod.splits)

lemma entropy_update_source:
  "entropy_update E ctx sid data = (r, ctx') \<Longrightarrow> source ctx' = source ctx"
  using entropy_update_mix_source [of E ctx sid]
  by (auto simp: entropy_update_def Let_def split: prod.splits if_splits)
     (metis snd_conv)+

lemma entropy_gather_loop_stop:
  "\<not> i < source_count ctx \<Longrightarrow>
   entropy_gather_loop E i h ctx w buf pl = Some (Loop_end h, ctx, w, buf, pl)"
  by (subst entropy_gather_loop.simps) simp

lemma entropy_gather_loop_invariant:
  assumes run: "entropy_gather_loop E i h ctx w buf pl = Some (ex, ctx', w', buf', pl')"
    and init: "I i h ctx w buf pl"
    and skip: "\<And>i h ctx w buf pl f b ol w1.
        \<lbrakk>I i h ctx w buf pl; i < source_count ctx; 0 \<le> i; nat i < length (source ctx);
         f_source (source ctx ! nat i) = Some f;
         f (p_source (source ctx ! nat i)) buf (MBEDTLS_ENTROPY_MAX_GATHER E) w = ((0, b, ol), w1);
         length b = length buf; ol = 0\<rbrakk>
        \<Longrightarrow> I (i + 1)
              (if strong (source ctx ! nat i) = MBEDTLS_ENTROPY_SOURCE_STRONG E then 1 else h)
              ctx w1 b (pl @ [(0, ol)])"
    and mix: "\<And>i h ctx w buf pl f b ol w1 ctx1.
        \<lbrakk>I i h ctx w buf pl; i < source_count ctx; 0 \<le> i; nat i < length (source ctx);
         f_source (source ctx ! nat i) = Some f;
         f (p_source (source ctx ! nat i)) buf (MBEDTLS_ENTROPY_MAX_GATHER E) w = ((0, b, ol), w1);
         length b = length buf; 0 < ol; unat ol \<le> length b;
         entropy_update E ctx (of_int i) (take (unat ol) b) = (0, ctx1)\<rbrakk>
        \<Longrightarrow> I (i + 1)
              (if strong (source ctx ! nat i) = MBEDTLS_ENTROPY_SOURCE_STRONG E then 1 else h)
              (add_size ctx1 i ol) w1 b (pl @ [(0, ol)])"
    and stop: "\<And>i h ctx w buf pl.
        \<lbrakk>I i h ctx w buf pl; \<not> i < source_count ctx\<rbrakk> \<Longrightarrow> Q (Loop_end h) ctx w buf pl"
    and poll_fail: "\<And>i h ctx w buf pl f r b ol w1.
        \<lbrakk>I i h ctx w buf pl; i < source_count ctx; 0 \<le> i; nat i < length (source ctx);
         f_source (source ctx ! nat i) = Some f;
         f (p_source (source ctx ! nat i)) buf (MBEDTLS_ENTROPY_MAX_GATHER E) w = ((r, b, ol), w1);
         length b = length buf; r \<noteq> 0\<rbrakk>
        \<Longrightarrow> Q (Goto_cleanup r) ctx w1 b (pl @ [(r, ol)])"
    and mix_fail: "\<And>i h ctx w buf pl f r b ol w1 ctx1.
        \<lbrakk>I i h ctx w buf pl; i < source_count ctx; 0 \<le> i; nat i < length (source ctx);
         f_source (source ctx ! nat i) = Some f;
         f (p_source (source ctx ! nat i)) buf (MBEDTLS_ENTROPY_MAX_GATHER E) w = ((0, b, ol), w1);
         length b = length buf; 0 < ol; unat ol \<le> length b;
         entropy_update E ctx (of_int i) (take (unat ol) b) = (r, ctx1); r \<noteq> 0\<rbrakk>
        \<Longrightarrow> Q (Return_ret r) ctx1 w1 b (pl @ [(0, ol)])"
  shows "Q ex ctx' w' buf' pl'"
  using run init
proof (induction "nat (source_count ctx - i)" arbitrary: i h ctx w buf pl)
  case 0
  then have n: "\<not> i < source_count ctx" by simp
  with "0.prems"(1) have "(ex, ctx', w', buf', pl') = (Loop_end h, ctx, w, buf, pl)"
    by (simp add: entropy_gather_loop_stop)
  with stop [OF "0.prems"(2) n] show ?case by simp
next
  case (Suc n)
  then have lt: "i < source_count ctx" by simp
  note run = Suc.prems(1) and I = Suc.prems(2)
  let ?h = "if strong (source ctx ! nat i) = MBEDTLS_ENTROPY_SOURCE_STRONG E then 1 else h"
  from run lt have rng: "0 \<le> i" "nat i < length (source ctx)"
    by (subst (asm) entropy_gather_loop.simps, simp split: if_splits)+
  from run lt rng obtain f where f: "f_source (source ctx ! nat i) = Some f"
    by (subst (asm) entropy_gather_loop.simps) (auto simp: Let_def split: option.splits)
  obtain r b ol w1 where
    call: "f (p_source (source ctx ! nat i)) buf (MBEDTLS_ENTROPY_MAX_GATHER E) w = ((r, b, ol), w1)"
    by (metis prod_cases3 surj_pair)
  from run lt rng f call have len: "length b = length buf"
    by (subst (asm) entropy_gather_loop.simps) (auto simp: Let_def split: if_splits)
  show ?case
  proof (cases "r = 0")
    case False
    with run lt rng f call len
    have "(ex, ctx', w', buf', pl') = (Goto_cleanup r, ctx, w1, b, pl @ [(r, ol)])"
      by (subst (asm) entropy_gather_loop.simps) (simp add: Let_def)
    with poll_fail [OF I lt rng f call len False] show ?thesis by simp
  next
    case r0: True
    show ?thesis
    proof (cases "0 < ol")
      case False
      then have ol0: "ol = 0" by (simp add: word_gt_0)
      from run lt rng f call len r0 False
      have rec: "entropy_gather_loop E (i + 1) ?h ctx w1 b (pl @ [(0, ol)])
                 = Some (ex, ctx', w', buf', pl')"
        by (subst (asm) entropy_gather_loop.simps) (simp add: Let_def)
      have "n = nat (source_count ctx - (i + 1))"
        using Suc.hyps(2) by simp
      from Suc.hyps(1) [OF this rec skip [OF I lt rng f call [unfolded r0] len ol0]]
      show ?thesis .
    next
      case pos: True
      from run lt rng f call len r0 pos have fit: "unat ol \<le> length b"
        by (subst (asm) entropy_gather_loop.simps) (auto simp: Let_def split: if_splits)
      obtain r' ctx1 where
        upd: "entropy_update E ctx (of_int i) (take (unat ol) b) = (r', ctx1)"
        by (metis surj_pair)
      show ?thesis
      proof (cases "r' = 0")
        case False
        with run lt rng f call len r0 pos fit upd
        have "(ex, ctx', w', buf', pl') = (Return_ret r', ctx1, w1, b, pl @ [(0, ol)])"
          by (subst (asm) entropy_gather_loop.simps) (simp add: Let_def)
        with mix_fail [OF I lt rng f call [unfolded r0] len pos fit upd False]
        show ?thesis by simp
      next
        case True
        with run lt rng f call len r0 pos fit upd
        have rec: "entropy_gather_loop E (i + 1) ?h (add_size ctx1 i ol) w1 b (pl @ [(0, ol)])
                   = Some (ex, ctx', w', buf', pl')"
          by (subst (asm) entropy_gather_loop.simps) (simp add: Let_def)
        have "source_count (add_size ctx1 i ol) = source_count ctx"
          using entropy_update_source_count_eq [OF upd] by (simp add: add_size_def)
        then have "n = nat (source_count (add_size ctx1 i ol) - (i + 1))"
          using Suc.hyps(2) by simp
        from Suc.hyps(1) [OF this rec
            mix [OF I lt rng f call [unfolded r0] len pos fit upd [unfolded True]]]
        show ?thesis .
      qed
    qed
  qed
qed

subsection \<open>The source count\<close>

lemma add_size_fields [simp]:
  "source_count (add_size ctx i n) = source_count ctx"
  "accumulator (add_size ctx i n) = accumulator ctx"
  "accumulator_started (add_size ctx i n) = accumulator_started ctx"
  "length (source (add_size ctx i n)) = length (source ctx)"
  by (simp_all add: add_size_def)

lemma entropy_gather_loop_source_count:
  assumes "entropy_gather_loop E i h ctx w buf pl = Some (ex, ctx', w', buf', pl')"
  shows "source_count ctx' = source_count ctx"
  by (rule entropy_gather_loop_invariant
        [OF assms, where I = "\<lambda>i h c w b pl. source_count c = source_count ctx"
                     and Q = "\<lambda>ex c w b pl. source_count c = source_count ctx"])
     (auto dest: entropy_update_source_count_eq)

lemma entropy_gather_internal_source_count:
  "entropy_gather_internal E ctx w buf = Some (r, ctx', w', buf', pl') \<Longrightarrow>
   source_count ctx' = source_count ctx"
  by (auto simp: entropy_gather_internal_def
      split: if_splits option.splits prod.splits gather_exit.splits
      dest: entropy_gather_loop_source_count)

lemma entropy_func_loop_source_count:
  "entropy_func_loop E count ctx w scratch rs = Some (r, ctx', w', rs') \<Longrightarrow>
   source_count ctx' = source_count ctx"
proof (induction "nat (ENTROPY_MAX_LOOP + 1 - count)" arbitrary: count ctx w rs)
  case 0
  then have "count > ENTROPY_MAX_LOOP" by simp
  with "0.prems" show ?case
    by (subst (asm) entropy_func_loop.simps) auto
next
  case (Suc n)
  then have le: "\<not> count > ENTROPY_MAX_LOOP" by simp
  from Suc.prems(1) le obtain r1 c1 w1 b1 p1 where
    g: "entropy_gather_internal E ctx w (scratch count) = Some (r1, c1, w1, b1, p1)"
    by (subst (asm) entropy_func_loop.simps) (auto split: option.splits)
  from g have s1: "source_count c1 = source_count ctx"
    by (rule entropy_gather_internal_source_count)
  show ?case
  proof (cases "r1 \<noteq> 0 \<or> thresholds_done c1 \<noteq> 0")
    case True
    with Suc.prems(1) le g have "ctx' = c1"
      by (subst (asm) entropy_func_loop.simps) (auto split: if_splits)
    with s1 show ?thesis by simp
  next
    case False
    with Suc.prems(1) le g
    have rec: "entropy_func_loop E (count + 1) c1 w1 scratch (rs @ [p1]) = Some (r, ctx', w', rs')"
      by (subst (asm) entropy_func_loop.simps) simp
    have "n = nat (ENTROPY_MAX_LOOP + 1 - (count + 1))"
      using Suc.hyps(2) by simp
    from Suc.hyps(1) [OF this rec] s1 show ?thesis by simp
  qed
qed

lemma entropy_func_reseed_source_count:
  "entropy_func_reseed E ctx output len = Some (r, ctx', output') \<Longrightarrow>
   source_count ctx' = source_count ctx"
  by (auto simp: entropy_func_reseed_def split: if_splits prod.splits)

lemma mbedtls_entropy_func_source_count:
  "mbedtls_entropy_func E ctx w scratch output len = Some (r, ctx', w', output', rs') \<Longrightarrow>
   source_count ctx' = source_count ctx"
  by (auto simp: mbedtls_entropy_func_def split: if_splits option.splits prod.splits
      dest!: entropy_func_loop_source_count entropy_func_reseed_source_count)

lemma mbedtls_entropy_add_source_count_le:
  "mbedtls_entropy_add_source E ctx f p thr str = Some (r, ctx') \<Longrightarrow>
   source_count ctx \<le> MBEDTLS_ENTROPY_MAX_SOURCES E \<Longrightarrow>
   source_count ctx' \<le> MBEDTLS_ENTROPY_MAX_SOURCES E"
  by (auto simp: mbedtls_entropy_add_source_def Let_def split: if_splits)

lemma add_sources_count_le:
  "add_sources E ctx ds = Some ctx' \<Longrightarrow>
   source_count ctx \<le> MBEDTLS_ENTROPY_MAX_SOURCES E \<Longrightarrow>
   source_count ctx' \<le> MBEDTLS_ENTROPY_MAX_SOURCES E"
proof (induction ds arbitrary: ctx)
  case Nil
  then show ?case by simp
next
  case (Cons d ds)
  obtain f p thr str where d: "d = (f, p, thr, str)"
    by (cases d) auto
  from Cons.prems(1) obtain r c1 where
    a: "mbedtls_entropy_add_source E ctx f p thr str = Some (r, c1)" and
    b: "add_sources E c1 ds = Some ctx'"
    by (auto simp: d split: option.splits)
  from a Cons.prems(2) have "source_count c1 \<le> MBEDTLS_ENTROPY_MAX_SOURCES E"
    by (rule mbedtls_entropy_add_source_count_le)
  with b show ?case by (rule Cons.IH)
qed

lemma call_source_count_le:
  assumes "call E ctx ctx'" and "source_count ctx \<le> MBEDTLS_ENTROPY_MAX_SOURCES E"
  shows "source_count ctx' \<le> MBEDTLS_ENTROPY_MAX_SOURCES E"
  using assms
proof (induction rule: call.induct)
  case (c_add_source ctx f p thr str r ctx')
  then show ?case by (auto dest: mbedtls_entropy_add_source_count_le)
next
  case (c_update_manual ctx data r ctx')
  then show ?case
    by (auto simp: mbedtls_entropy_update_manual_def dest: entropy_update_source_count_eq)
next
  case (c_gather ctx w buf r ctx' w' buf' polls)
  then show ?case
    by (auto simp: mbedtls_entropy_gather_def dest: entropy_gather_internal_source_count)
next
  case (c_func ctx w scratch out len r ctx' w' out' rounds)
  then show ?case by (auto dest: mbedtls_entropy_func_source_count)
qed

lemma reachable_source_count_le:
  assumes "0 \<le> MBEDTLS_ENTROPY_MAX_SOURCES E" and "reachable E ctx"
  shows "source_count ctx \<le> MBEDTLS_ENTROPY_MAX_SOURCES E"
  using assms(2)
proof (induction rule: reachable.induct)
  case (r_init ctx)
  then show ?case
    using assms(1) by (auto simp: mbedtls_entropy_init_def dest!: add_sources_count_le)
next
  case (r_call ctx ctx')
  then show ?case by (auto dest: call_source_count_le)
next
  case (r_free ctx)
  then show ?case using assms(1) by (simp add: mbedtls_entropy_free_def)
qed

lemma demo_filled_step:
  assumes "n < 20"
  shows "mbedtls_entropy_add_source demo_env (demo_filled n) (Some entropy_dummy_source) None 16 0
         = Some (0, demo_filled (Suc n))"
proof -
  from assms obtain k where k: "20 - n = Suc k" "20 - Suc n = k"
    by (cases "20 - n") auto
  have "(replicate n demo_slot @ replicate (Suc k) zero_source)[n := demo_slot]
        = replicate (Suc n) demo_slot @ replicate k zero_source"
    by (simp add: list_update_append replicate_append_same)
  moreover have "(replicate n demo_slot @ replicate (Suc k) zero_source) ! n = zero_source"
    by (simp add: nth_append)
  moreover have "zero_source\<lparr>f_source := Some entropy_dummy_source, p_source := None,
                   threshold := 16, strong := 0\<rparr> = demo_slot"
    by (simp add: zero_source_def demo_slot_def)
  ultimately show ?thesis
    using assms k
    by (simp add: mbedtls_entropy_add_source_def demo_filled_def demo_env_def Let_def)
qed

lemma reachable_demo_filled: "n \<le> 20 \<Longrightarrow> reachable demo_env (demo_filled n)"
proof (induction n)
  case 0
  have "mbedtls_entropy_init demo_env = Some (demo_filled 0)"
    by (simp add: mbedtls_entropy_init_def demo_env_def demo_filled_def)
  then show ?case by (rule r_init)
next
  case (Suc n)
  then have "reachable demo_env (demo_filled n)" and "n < 20" by simp_all
  then show ?case
    using demo_filled_step [of n] by (blast intro: r_call c_add_source)
qed

subsection \<open>A successful round has visited every slot in use\<close>

lemma entropy_gather_loop_length:
  assumes "entropy_gather_loop E i h ctx w buf pl = Some (ex, ctx', w', buf', pl')"
  shows "length (source ctx') = length (source ctx)"
  by (rule entropy_gather_loop_invariant
        [OF assms, where I = "\<lambda>i h c w b pl. length (source c) = length (source ctx)"
                     and Q = "\<lambda>ex c w b pl. length (source c) = length (source ctx)"])
     (auto dest: entropy_update_source)

lemma entropy_gather_loop_exit_nonzero:
  assumes "entropy_gather_loop E i h ctx w buf pl = Some (ex, ctx', w', buf', pl')"
  shows "ex \<noteq> Goto_cleanup 0 \<and> ex \<noteq> Return_ret 0"
  by (rule entropy_gather_loop_invariant
        [OF assms, where I = "\<lambda>i h c w b pl. True"
                     and Q = "\<lambda>ex c w b pl. ex \<noteq> Goto_cleanup 0 \<and> ex \<noteq> Return_ret 0"])
     auto

lemma entropy_gather_loop_end_range:
  assumes "entropy_gather_loop E i h ctx w buf pl = Some (Loop_end h', ctx', w', buf', pl')"
    and "0 \<le> i" and "nat i \<le> length (source ctx)"
  shows "nat (source_count ctx') \<le> length (source ctx')"
  by (rule entropy_gather_loop_invariant
        [OF assms(1), where I = "\<lambda>i h c w b pl. 0 \<le> i \<and> nat i \<le> length (source c)"
                     and Q = "\<lambda>ex c w b pl. (\<exists>h. ex = Loop_end h) \<longrightarrow> nat (source_count c) \<le> length (source c)",
         THEN mp])
     (use assms(2,3) in \<open>auto dest: entropy_update_source\<close>)

lemma entropy_gather_internal_ok_range:
  assumes "entropy_gather_internal E ctx w buf = Some (0, ctx', w', buf', pl')"
  shows "nat (source_count ctx') \<le> length (source ctx')"
proof (cases "source_count ctx = 0")
  case True
  with assms show ?thesis
    by (auto simp: entropy_gather_internal_def split: if_splits)
next
  case False
  with assms obtain ex b pl where
    l: "entropy_gather_loop E 0 0 ctx w buf [] = Some (ex, ctx', w', b, pl)"
    by (auto simp: entropy_gather_internal_def
        split: if_splits option.splits gather_exit.splits)
  show ?thesis
  proof (cases ex)
    case (Loop_end h)
    with l show ?thesis by (auto dest: entropy_gather_loop_end_range)
  next
    case (Goto_cleanup r)
    with l assms False entropy_gather_loop_exit_nonzero [OF l] show ?thesis
      by (auto simp: entropy_gather_internal_def)
  next
    case (Return_ret r)
    with l assms False entropy_gather_loop_exit_nonzero [OF l] show ?thesis
      by (auto simp: entropy_gather_internal_def)
  qed
qed

lemma entropy_func_loop_ok_range:
  assumes "entropy_func_loop E count ctx w scratch rs = Some (0, ctx', w', rs')"
    and "MBEDTLS_ERR_ENTROPY_SOURCE_FAILED E \<noteq> 0"
  shows "nat (source_count ctx') \<le> length (source ctx')"
  using assms
proof (induction "nat (ENTROPY_MAX_LOOP + 1 - count)" arbitrary: count ctx w rs)
  case 0
  then have "count > ENTROPY_MAX_LOOP" by simp
  with "0.prems" show ?case
    by (subst (asm) entropy_func_loop.simps) simp
next
  case (Suc n)
  then have le: "\<not> count > ENTROPY_MAX_LOOP" by simp
  from Suc.prems(1) le obtain r c1 w1 b1 p1 where
    g: "entropy_gather_internal E ctx w (scratch count) = Some (r, c1, w1, b1, p1)"
    by (subst (asm) entropy_func_loop.simps) (auto split: option.splits)
  show ?case
  proof (cases "r = 0")
    case False
    with Suc.prems(1) le g show ?thesis
      by (subst (asm) entropy_func_loop.simps) simp
  next
    case r0: True
    show ?thesis
    proof (cases "thresholds_done c1 = 0")
      case False
      with Suc.prems(1) le g r0 have "ctx' = c1"
        by (subst (asm) entropy_func_loop.simps) simp
      with g r0 show ?thesis by (auto dest: entropy_gather_internal_ok_range)
    next
      case True
      with Suc.prems(1) le g r0
      have rec: "entropy_func_loop E (count + 1) c1 w1 scratch (rs @ [p1]) = Some (0, ctx', w', rs')"
        by (subst (asm) entropy_func_loop.simps) simp
      have "n = nat (ENTROPY_MAX_LOOP + 1 - (count + 1))"
        using Suc.hyps(2) by simp
      from Suc.hyps(1) [OF this rec Suc.prems(2)] show ?thesis .
    qed
  qed
qed

lemma entropy_func_reseed_ok:
  assumes "entropy_func_reseed E ctx output len = Some (0, ctx', output')"
  shows "source_count ctx' = source_count ctx \<and>
         source ctx' = map (\<lambda>s. s\<lparr>size := 0\<rparr>) (take (nat (source_count ctx)) (source ctx))
                        @ drop (nat (source_count ctx)) (source ctx)"
  using assms
  by (auto simp: entropy_func_reseed_def split: if_splits prod.splits)

subsection \<open>What entropy_update absorbs\<close>

lemma header_byte: "ucast ((of_nat n :: size_t) AND 0xFF) = (of_nat n :: byte)"
proof -
  have "(0xFF :: size_t) = mask 8" by (simp add: mask_eq_exp_minus_1)
  then show ?thesis
    by (auto simp add: bit_eq_iff bit_simps)
qed

lemma entropy_update_mix_accumulator:
  assumes "accumulator_started ctx = 0 \<longrightarrow> fst (sha_starts_ret E (accumulator ctx)) = 0"
    and "a0 = (if accumulator_started ctx = 0 then snd (sha_starts_ret E (accumulator ctx))
               else accumulator ctx)"
    and "fst (sha_update_ret E a0 [source_id, of_nat use_len]) = 0"
  shows "entropy_update_mix E ctx source_id p use_len =
           (fst (sha_update_ret E (snd (sha_update_ret E a0 [source_id, of_nat use_len]))
                   (take use_len p)),
            ctx\<lparr>accumulator_started := 1,
                accumulator := snd (sha_update_ret E
                    (snd (sha_update_ret E a0 [source_id, of_nat use_len])) (take use_len p))\<rparr>)"
proof (cases "accumulator_started ctx = 0")
  case True
  with assms show ?thesis
    by (simp add: entropy_update_mix_def header_byte case_prod_unfold Let_def)
next
  case False
  with assms show ?thesis
    by (simp add: entropy_update_mix_def header_byte case_prod_unfold Let_def)
qed

subsection \<open>The started flag\<close>

lemma entropy_update_mix_started:
  "accumulator_started ctx \<noteq> 0 \<Longrightarrow>
   accumulator_started (snd (entropy_update_mix E ctx sid p n)) = 1"
  by (simp add: entropy_update_mix_def Let_def case_prod_unfold)

lemma entropy_update_started_snd:
  "accumulator_started ctx \<noteq> 0 \<Longrightarrow>
   accumulator_started (snd (entropy_update E ctx sid data)) \<noteq> 0"
  by (simp add: entropy_update_def Let_def case_prod_unfold entropy_update_mix_started)

lemma entropy_update_started:
  "accumulator_started ctx \<noteq> 0 \<Longrightarrow> entropy_update E ctx sid data = (r, ctx') \<Longrightarrow>
   accumulator_started ctx' \<noteq> 0"
  using entropy_update_started_snd [of ctx E sid data] by simp

lemma entropy_update_ok_started:
  "entropy_update E ctx sid data = (0, ctx') \<Longrightarrow> accumulator_started ctx' = 1"
  by (auto simp: entropy_update_def entropy_update_mix_def Let_def case_prod_unfold
      split: if_splits)

lemma entropy_gather_loop_started:
  assumes "entropy_gather_loop E i h ctx w buf pl = Some (ex, ctx', w', buf', pl')"
    and "accumulator_started ctx \<noteq> 0"
  shows "accumulator_started ctx' \<noteq> 0"
  by (rule entropy_gather_loop_invariant
        [OF assms(1), where I = "\<lambda>i h c w b pl. accumulator_started c \<noteq> 0"
                        and Q = "\<lambda>ex c w b pl. accumulator_started c \<noteq> 0"])
     (use assms(2) in \<open>auto dest: entropy_update_started\<close>)

lemma entropy_gather_internal_started:
  assumes "entropy_gather_internal E ctx w buf = Some (r, ctx', w', buf', pl')"
    and "accumulator_started ctx \<noteq> 0"
  shows "accumulator_started ctx' \<noteq> 0"
  using assms
  by (auto simp: entropy_gather_internal_def
      split: if_splits option.splits gather_exit.splits
      dest: entropy_gather_loop_started)

lemma entropy_func_loop_started:
  assumes "entropy_func_loop E count ctx w scratch rs = Some (r, ctx', w', rs')"
    and "accumulator_started ctx \<noteq> 0"
  shows "accumulator_started ctx' \<noteq> 0"
  using assms
proof (induction "nat (ENTROPY_MAX_LOOP + 1 - count)" arbitrary: count ctx w rs)
  case 0
  then have "count > ENTROPY_MAX_LOOP" by simp
  with "0.prems" show ?case
    by (subst (asm) entropy_func_loop.simps) auto
next
  case (Suc n)
  then have le: "\<not> count > ENTROPY_MAX_LOOP" by simp
  from Suc.prems(1) le obtain r1 c1 w1 b1 p1 where
    g: "entropy_gather_internal E ctx w (scratch count) = Some (r1, c1, w1, b1, p1)"
    by (subst (asm) entropy_func_loop.simps) (auto split: option.splits)
  from g Suc.prems(2) have s1: "accumulator_started c1 \<noteq> 0"
    by (rule entropy_gather_internal_started)
  show ?case
  proof (cases "r1 \<noteq> 0 \<or> thresholds_done c1 \<noteq> 0")
    case True
    with Suc.prems(1) le g have "ctx' = c1"
      by (subst (asm) entropy_func_loop.simps) (auto split: if_splits)
    with s1 show ?thesis by simp
  next
    case False
    with Suc.prems(1) le g
    have rec: "entropy_func_loop E (count + 1) c1 w1 scratch (rs @ [p1]) = Some (r, ctx', w', rs')"
      by (subst (asm) entropy_func_loop.simps) simp
    have "n = nat (ENTROPY_MAX_LOOP + 1 - (count + 1))"
      using Suc.hyps(2) by simp
    from Suc.hyps(1) [OF this rec s1] show ?thesis .
  qed
qed

lemma entropy_func_reseed_started:
  "entropy_func_reseed E ctx output len = Some (r, ctx', output') \<Longrightarrow>
   accumulator_started ctx' = accumulator_started ctx"
  by (auto simp: entropy_func_reseed_def case_prod_unfold split: if_splits)

lemma mbedtls_entropy_func_started:
  assumes "mbedtls_entropy_func E ctx w scratch output len = Some (r, ctx', w', output', rs')"
    and "accumulator_started ctx \<noteq> 0"
  shows "accumulator_started ctx' \<noteq> 0"
  using assms
  by (auto simp: mbedtls_entropy_func_def split: if_splits option.splits prod.splits
      dest!: entropy_func_loop_started entropy_func_reseed_started)

lemma add_sources_started:
  "add_sources E ctx ds = Some ctx' \<Longrightarrow> accumulator_started ctx' = accumulator_started ctx"
proof (induction ds arbitrary: ctx)
  case Nil
  then show ?case by simp
next
  case (Cons d ds)
  obtain f p thr str where d: "d = (f, p, thr, str)"
    by (cases d) auto
  from Cons.prems obtain r c1 where
    a: "mbedtls_entropy_add_source E ctx f p thr str = Some (r, c1)" and
    b: "add_sources E c1 ds = Some ctx'"
    by (auto simp: d split: option.splits)
  from a have "accumulator_started c1 = accumulator_started ctx"
    by (auto simp: mbedtls_entropy_add_source_def Let_def split: if_splits)
  with Cons.IH [OF b] show ?case by simp
qed

subsection \<open>Runs on the concrete build\<close>

lemmas demo_defs =
  demo_env_def demo_slot_def demo_hw_slot_def entropy_dummy_source_def demo_hw_poll_def
  demo_digest_def zero_source_def

lemmas run_defs =
  mbedtls_entropy_func_def entropy_func_loop.simps entropy_func_reseed_def
  thresholds_done_def ENTROPY_MAX_LOOP_def entropy_gather_internal_def
  entropy_gather_loop.simps entropy_update_def entropy_update_mix_def Let_def add_size_def
  mbedtls_zeroize_def

lemma demo_pair_func:
  "mbedtls_entropy_func demo_env demo_pair 0 demo_scratch (replicate 32 0) 32 =
     Some (0, demo_pair_after, 1, replicate 26 42 @ [1, 4, 0, 1, 2, 3], [[(0, 128), (0, 4)]])"
  by (simp add: run_defs demo_defs demo_pair_def demo_pair_after_def demo_scratch_def)

lemma demo_update_100:
  "entropy_update demo_env demo_ctx 7 (replicate 100 9) =
     (0, demo_ctx\<lparr>accumulator_started := 1, accumulator := [7, 32] @ replicate 32 9\<rparr>)"
  by (simp add: run_defs demo_defs demo_ctx_def)

lemma demo_manual_empty:
  "mbedtls_entropy_update_manual demo_env demo_pair_after [] =
     (0, demo_pair_after\<lparr>accumulator := [3, 2, 1, 0, 4, 1] @ replicate 26 42 @ [20, 0]\<rparr>)"
  by (simp add: mbedtls_entropy_update_manual_def run_defs demo_defs demo_pair_after_def)

lemma demo_init: "mbedtls_entropy_init demo_env = Some demo_ctx"
  by (simp add: mbedtls_entropy_init_def demo_env_def demo_ctx_def)

lemma demo_pair_after_func:
  "mbedtls_entropy_func demo_env demo_pair_after 1 demo_scratch (replicate 32 0) 32 =
     Some (0, demo_pair_after2, 2, replicate 26 42 @ [1, 4, 1, 1, 2, 3], [[(0, 128), (0, 4)]])"
  by (simp add: run_defs demo_defs demo_pair_after_def demo_pair_after2_def demo_scratch_def)

subsection \<open>What a round does to the counters and to have_one_strong\<close>

lemma add_size_nth:
  "nat i < length (source c) \<Longrightarrow>
   source (add_size c i n) ! j =
     (if j = nat i then (source c ! j)\<lparr>size := size (source c ! j) + n\<rparr> else source c ! j)"
  by (simp add: add_size_def nth_list_update)

lemma entropy_gather_loop_sizes:
  assumes "entropy_gather_loop E 0 h ctx w buf [] = Some (ex, ctx', w', buf', pl')"
  shows "(\<forall>e \<in> set (butlast pl'). fst e = 0) \<and>
         (\<forall>r. ex = Goto_cleanup r \<longrightarrow> pl' \<noteq> [] \<and> fst (last pl') = r \<and> r \<noteq> 0) \<and>
         ((\<forall>r. ex \<noteq> Goto_cleanup r) \<longrightarrow> (\<forall>e \<in> set pl'. fst e = 0)) \<and>
         (\<forall>r j. ex = Goto_cleanup r \<and> j < length (source ctx) \<longrightarrow>
            size (source ctx' ! j) =
              size (source ctx ! j) + (if j < length pl' - 1 then snd (pl' ! j) else 0))"
  by (rule entropy_gather_loop_invariant
        [OF assms, where
          I = "\<lambda>i h c w b pl. 0 \<le> i \<and> length pl = nat i \<and> (\<forall>e \<in> set pl. fst e = 0) \<and>
                 length (source c) = length (source ctx) \<and>
                 (\<forall>j < length (source ctx). size (source c ! j) =
                    size (source ctx ! j) + (if j < nat i then snd (pl ! j) else 0))"
          and Q = "\<lambda>ex c w b pl. (\<forall>e \<in> set (butlast pl). fst e = 0) \<and>
         (\<forall>r. ex = Goto_cleanup r \<longrightarrow> pl \<noteq> [] \<and> fst (last pl) = r \<and> r \<noteq> 0) \<and>
         ((\<forall>r. ex \<noteq> Goto_cleanup r) \<longrightarrow> (\<forall>e \<in> set pl. fst e = 0)) \<and>
         (\<forall>r j. ex = Goto_cleanup r \<and> j < length (source ctx) \<longrightarrow>
            size (source c ! j) =
              size (source ctx ! j) + (if j < length pl - 1 then snd (pl ! j) else 0))"])
     (auto simp: nth_append add_size_nth nat_add_distrib
           dest!: entropy_update_source in_set_butlastD)

lemma strong_below_0 [simp]: "\<not> strong_below E ctx 0"
  by (simp add: strong_below_def)

lemma strong_below_step:
  "0 \<le> i \<Longrightarrow>
   strong_below E ctx (i + 1) \<longleftrightarrow>
     strong_below E ctx i \<or> strong (source ctx ! nat i) = MBEDTLS_ENTROPY_SOURCE_STRONG E"
proof -
  assume i: "0 \<le> i"
  have "\<And>j. (0 \<le> j \<and> j < i + 1) = ((0 \<le> j \<and> j < i) \<or> j = i)"
    using i by auto
  then show ?thesis
    unfolding strong_below_def by (metis (no_types, lifting))
qed

lemma entropy_update_never_fails:
  "sha_never_fails E \<Longrightarrow> entropy_update E ctx sid data = (r, c) \<Longrightarrow> r = 0"
  by (auto simp: sha_never_fails_def entropy_update_def entropy_update_mix_def Let_def
      case_prod_unfold split: if_splits)

lemma add_size_strong:
  "strong (source (add_size c i n) ! j) = strong (source c ! j)"
  by (cases "j = nat i \<and> nat i < length (source c)")
     (auto simp: add_size_def nth_list_update list_update_beyond)

lemma entropy_gather_loop_have_one_strong:
  assumes "entropy_gather_loop E 0 0 ctx w buf [] = Some (ex, ctx', w', buf', pl')"
    and "0 \<le> source_count ctx"
  shows "(\<forall>h. ex = Loop_end h \<longrightarrow>
            h = (if strong_below E ctx (source_count ctx) then 1 else 0)) \<and>
         (sha_never_fails E \<longrightarrow> (\<forall>r. ex \<noteq> Return_ret r))"
proof (rule entropy_gather_loop_invariant
        [OF assms(1), where
          I = "\<lambda>i h c w b pl. 0 \<le> i \<and> i \<le> source_count ctx \<and>
                 source_count c = source_count ctx \<and>
                 (\<forall>j. strong (source c ! j) = strong (source ctx ! j)) \<and>
                 h = (if strong_below E ctx i then 1 else 0)"
          and Q = "\<lambda>ex c w b pl. (\<forall>h. ex = Loop_end h \<longrightarrow>
            h = (if strong_below E ctx (source_count ctx) then 1 else 0)) \<and>
         (sha_never_fails E \<longrightarrow> (\<forall>r. ex \<noteq> Return_ret r))"], goal_cases)
  case 1
  then show ?case using assms(2) by simp
next
  case (2 i h c w buf pl f b ol w1)
  then show ?case by (simp add: strong_below_step)
next
  case (3 i h c w buf pl f b ol w1 ctx1)
  then have "source ctx1 = source c" "source_count ctx1 = source_count c"
    by (auto dest: entropy_update_source entropy_update_source_count_eq)
  with 3 show ?case by (simp add: strong_below_step add_size_strong)
next
  case (4 i h c w buf pl)
  then have "i = source_count ctx" by simp
  with 4 show ?case by simp
next
  case (5 i h c w buf pl f r b ol w1)
  then show ?case by simp
next
  case (6 i h c w buf pl f r b ol w1 ctx1)
  then show ?case by (auto dest: entropy_update_never_fails)
qed

subsection \<open>The scratch buffer\<close>

lemma entropy_gather_loop_buf_length:
  assumes "entropy_gather_loop E i h ctx w buf pl = Some (ex, ctx', w', buf', pl')"
  shows "length buf' = length buf"
  by (rule entropy_gather_loop_invariant
        [OF assms, where I = "\<lambda>i h c w b pl. length b = length buf"
                     and Q = "\<lambda>ex c w b pl. length b = length buf"])
     auto

lemma mbedtls_zeroize_all: "length v \<le> n \<Longrightarrow> mbedtls_zeroize v n = replicate (length v) 0"
  by (simp add: mbedtls_zeroize_def)

lemma gather_zeroizes_unless_mix_fails:
  assumes "entropy_gather_internal E ctx w buf = Some (r, ctx', w', buf', polls)"
    and "source_count ctx \<noteq> 0"
    and "length buf = MBEDTLS_ENTROPY_MAX_GATHER E"
    and "sha_never_fails E \<or> (\<exists>e \<in> set polls. fst e \<noteq> 0)"
  shows "buf' = replicate (MBEDTLS_ENTROPY_MAX_GATHER E) 0"
proof -
  from assms(1,2) obtain ex b where
    l: "entropy_gather_loop E 0 0 ctx w buf [] = Some (ex, ctx', w', b, polls)"
    by (auto simp: entropy_gather_internal_def split: option.splits gather_exit.splits)
  from l assms(3) have b: "length b = MBEDTLS_ENTROPY_MAX_GATHER E"
    by (simp add: entropy_gather_loop_buf_length)
  show ?thesis
  proof (cases ex)
    case (Loop_end x)
    with l assms(1,2) b show ?thesis
      by (auto simp: entropy_gather_internal_def mbedtls_zeroize_all)
  next
    case (Goto_cleanup x)
    with l assms(1,2) b show ?thesis
      by (auto simp: entropy_gather_internal_def mbedtls_zeroize_all)
  next
    case (Return_ret x)
    have "\<not> sha_never_fails E"
    proof
      assume "sha_never_fails E"
      moreover from assms(2) have "0 \<le> source_count ctx \<or> source_count ctx < 0" by auto
      ultimately show False
        using Return_ret l entropy_gather_loop_have_one_strong [OF l]
          entropy_gather_loop_stop [of 0 ctx E 0 w buf "[]"]
        by (cases "0 \<le> source_count ctx") auto
    qed
    moreover from Return_ret entropy_gather_loop_sizes [OF l]
    have "\<forall>e \<in> set polls. fst e = 0" by simp
    ultimately show ?thesis using assms(4) by blast
  qed
qed

subsection \<open>The retry loop of mbedtls_entropy_func\<close>

lemma entropy_func_loop_exceeded:
  assumes step: "\<And>c v n. P c v \<Longrightarrow>
        \<exists>c' v' b' pl. entropy_gather_internal E c v (scratch n) = Some (0, c', v', b', pl) \<and>
          thresholds_done c' = 0 \<and> P c' v'"
    and "P ctx w" and "count \<le> ENTROPY_MAX_LOOP + 1"
  shows "\<exists>ctx' w' rs'. entropy_func_loop E count ctx w scratch rs =
            Some (MBEDTLS_ERR_ENTROPY_SOURCE_FAILED E, ctx', w', rs') \<and>
          length rs' = length rs + nat (ENTROPY_MAX_LOOP + 1 - count) \<and> P ctx' w'"
  using assms(2,3)
proof (induction "nat (ENTROPY_MAX_LOOP + 1 - count)" arbitrary: count ctx w rs)
  case 0
  then have "count > ENTROPY_MAX_LOOP" by simp
  with "0.prems" "0.hyps" show ?case
    by (subst entropy_func_loop.simps) simp
next
  case (Suc n)
  then have le: "\<not> count > ENTROPY_MAX_LOOP" by simp
  from step [OF Suc.prems(1), of count] obtain c1 w1 b1 p1 where
    g: "entropy_gather_internal E ctx w (scratch count) = Some (0, c1, w1, b1, p1)" and
    nd: "thresholds_done c1 = 0" and P1: "P c1 w1"
    by blast
  have n: "n = nat (ENTROPY_MAX_LOOP + 1 - (count + 1))"
    using Suc.hyps(2) by simp
  from le have c1: "count + 1 \<le> ENTROPY_MAX_LOOP + 1" by simp
  from Suc.hyps(1) [OF n P1 c1, of "rs @ [p1]"] obtain ctx' w' rs' where
    r: "entropy_func_loop E (count + 1) c1 w1 scratch (rs @ [p1]) =
          Some (MBEDTLS_ERR_ENTROPY_SOURCE_FAILED E, ctx', w', rs')" and
    l: "length rs' = length (rs @ [p1]) + nat (ENTROPY_MAX_LOOP + 1 - (count + 1))" and
    P': "P ctx' w'"
    by blast
  have "entropy_func_loop E count ctx w scratch rs =
          Some (MBEDTLS_ERR_ENTROPY_SOURCE_FAILED E, ctx', w', rs')"
    using le g nd r by (subst entropy_func_loop.simps) simp
  moreover have "length rs' = length rs + nat (ENTROPY_MAX_LOOP + 1 - count)"
    using l le by simp
  ultimately show ?case using P' by blast
qed

subsection \<open>More runs on the concrete build\<close>

lemma demo_trio_gather:
  "entropy_gather_internal demo_env demo_trio 0 (replicate 128 0) =
     Some (- 60, demo_trio_after, 2, replicate 128 0, [(0, 4), (- 60, 0)])"
  by (simp add: run_defs demo_defs demo_trio_def demo_trio_after_def demo_fail_poll_def)

lemma demo_idle_gather:
  "entropy_gather_internal demo_env demo_idle v (replicate 128 0) =
     Some (0, demo_idle, v + 1, replicate 128 0, [(0, 0)])"
  by (simp add: run_defs demo_defs demo_idle_def demo_idle_poll_def)

lemma demo_idle_not_done: "thresholds_done demo_idle = 0"
  by (simp add: thresholds_done_def demo_idle_def)


lemma demo_weak_gather_finish_fails:
  "entropy_gather_internal demo_env_finish_fails (demo_filled 1) 0 (replicate 128 0) =
     Some (- 61,
           (demo_filled 1)\<lparr>accumulator_started := 1,
                            accumulator := [0, 32] @ replicate 32 42,
                            source := [demo_slot\<lparr>size := 128\<rparr>] @ replicate 19 zero_source\<rparr>,
           0, replicate 128 0, [(0, 128)])"
  by (simp add: run_defs demo_defs demo_filled_def demo_env_finish_fails_def)

lemma demo_weak_no_mix_failure:
  "\<not> mix_step_fails demo_env_finish_fails (demo_filled 1) 0 (replicate 128 0)"
  by (simp add: mix_step_fails_def run_defs demo_defs demo_filled_def demo_env_finish_fails_def)

section \<open>The claims\<close>

text \<open>
  C1. A call of \<^verbatim>\<open>mbedtls_entropy_func\<close> with \<^verbatim>\<open>len\<close> greater than
  \<^verbatim>\<open>MBEDTLS_ENTROPY_BLOCK_SIZE\<close> fails and writes nothing: it returns the error code of its
  first \<^verbatim>\<open>return\<close> statement (\<^verbatim>\<open>MBEDTLS_ERR_ENTROPY_SOURCE_FAILED\<close> is the code the C
  function uses for a request that is too large), and the caller's output buffer, the
  context and the outside state are what they were. This holds for every context, also
  one on which gathering would fail or be undefined.
\<close>

theorem func_too_large:
  "MBEDTLS_ENTROPY_BLOCK_SIZE E < len \<Longrightarrow>
   mbedtls_entropy_func E ctx w scratch output len =
     Some (MBEDTLS_ERR_ENTROPY_SOURCE_FAILED E, ctx, w, output, [])"
  by (simp add: mbedtls_entropy_func_def)

theorem func_too_large_witness:
  "MBEDTLS_ENTROPY_BLOCK_SIZE demo_env < 33 \<and>
   mbedtls_entropy_func demo_env demo_ctx 0 demo_scratch (replicate 40 5) 33 =
     Some (- 60, demo_ctx, 0, replicate 40 5, [])"
proof -
  have h: "MBEDTLS_ENTROPY_BLOCK_SIZE demo_env < 33"
    by (simp add: demo_env_def)
  have e: "MBEDTLS_ERR_ENTROPY_SOURCE_FAILED demo_env = - 60"
    by (simp add: demo_env_def)
  show ?thesis
    using h func_too_large [OF h, of demo_ctx 0 demo_scratch "replicate 40 5"]
    by (simp add: e)
qed

text \<open>
  C2, as the code has it. \<^verbatim>\<open>have_one_strong\<close> is set from the \<^verbatim>\<open>strong\<close> field of each
  slot before the slot is polled, whatever the poll then returns. On the concrete build
  a round over one strong source whose poll succeeds with 0 bytes returns 0, not
  \<^verbatim>\<open>MBEDTLS_ERR_ENTROPY_NO_STRONG_SOURCE\<close>.
\<close>

theorem gather_no_strong_counterexample:
  "entropy_gather_internal demo_env demo_idle 0 (replicate 128 0) =
     Some (0, demo_idle, 1, replicate 128 0, [(0, 0)]) \<and>
   source_count demo_idle = 1 \<and>
   strong (source demo_idle ! 0) = MBEDTLS_ENTROPY_SOURCE_STRONG demo_env \<and>
   MBEDTLS_ERR_ENTROPY_NO_STRONG_SOURCE demo_env \<noteq> 0"
  using demo_idle_gather [of 0] by (simp add: demo_idle_def demo_env_def)

text \<open>
  C2, amended. For every gather round over at least one source in which all polls
  succeed and no mix step fails, the round returns
  \<^verbatim>\<open>MBEDTLS_ERR_ENTROPY_NO_STRONG_SOURCE\<close> (which is not 0) when no slot in use is
  registered as strong, and 0 when one is, whether or not that source delivered any
  byte. In particular a round over weak sources only, all of which deliver data,
  returns \<^verbatim>\<open>MBEDTLS_ERR_ENTROPY_NO_STRONG_SOURCE\<close>. Nothing is asked of the hash beyond
  the mix steps of the round: the example is on a build whose finish call fails.
\<close>

theorem gather_no_strong:
  assumes "entropy_gather_internal E ctx w buf = Some (r, ctx', w', buf', polls)"
    and "0 < source_count ctx"
    and "\<forall>e \<in> set polls. fst e = 0"
    and "\<not> mix_step_fails E ctx w buf"
    and "MBEDTLS_ERR_ENTROPY_NO_STRONG_SOURCE E \<noteq> 0"
  shows "if \<exists>j. 0 \<le> j \<and> j < source_count ctx \<and>
              strong (source ctx ! nat j) = MBEDTLS_ENTROPY_SOURCE_STRONG E
         then r = 0
         else r = MBEDTLS_ERR_ENTROPY_NO_STRONG_SOURCE E \<and> r \<noteq> 0"
proof -
  from assms(1,2) obtain ex b where
    l: "entropy_gather_loop E 0 0 ctx w buf [] = Some (ex, ctx', w', b, polls)"
    by (auto simp: entropy_gather_internal_def split: option.splits gather_exit.splits)
  from assms(2) have c: "0 \<le> source_count ctx" by simp
  note h = entropy_gather_loop_have_one_strong [OF l c]
  note s = entropy_gather_loop_sizes [OF l]
  show ?thesis
  proof (cases ex)
    case (Loop_end x)
    with h have x: "x = (if strong_below E ctx (source_count ctx) then 1 else 0)" by simp
    from Loop_end l assms(1,2)
    have r: "r = (if x = 0 then MBEDTLS_ERR_ENTROPY_NO_STRONG_SOURCE E else 0)"
      by (simp add: entropy_gather_internal_def)
    show ?thesis
    proof (cases "strong_below E ctx (source_count ctx)")
      case True
      with x r show ?thesis by (simp add: strong_below_def)
    next
      case False
      with x r assms(5) show ?thesis by (simp add: strong_below_def)
    qed
  next
    case (Goto_cleanup x)
    with s have "polls \<noteq> []" "fst (last polls) \<noteq> 0" by auto
    with assms(3) show ?thesis using last_in_set by blast
  next
    case (Return_ret x)
    with l have "mix_step_fails E ctx w buf"
      by (simp add: mix_step_fails_def)
    with assms(4) show ?thesis by simp
  qed
qed

theorem gather_no_strong_witness:
  "entropy_gather_internal demo_env_finish_fails (demo_filled 1) 0 (replicate 128 0) =
     Some (- 61,
           (demo_filled 1)\<lparr>accumulator_started := 1,
                            accumulator := [0, 32] @ replicate 32 42,
                            source := [demo_slot\<lparr>size := 128\<rparr>] @ replicate 19 zero_source\<rparr>,
           0, replicate 128 0, [(0, 128)]) \<and>
   0 < source_count (demo_filled 1) \<and>
   fst (0 :: int, 128 :: size_t) = 0 \<and>
   \<not> mix_step_fails demo_env_finish_fails (demo_filled 1) 0 (replicate 128 0) \<and>
   MBEDTLS_ERR_ENTROPY_NO_STRONG_SOURCE demo_env_finish_fails \<noteq> 0 \<and>
   strong (source (demo_filled 1) ! nat 0) \<noteq> MBEDTLS_ENTROPY_SOURCE_STRONG demo_env_finish_fails \<and>
   (- 61 :: int) = MBEDTLS_ERR_ENTROPY_NO_STRONG_SOURCE demo_env_finish_fails \<and>
   fst (sha_finish_ret demo_env_finish_fails []) \<noteq> 0"
proof -
  have 2: "0 < source_count (demo_filled 1)"
    by (simp add: demo_filled_def)
  have 3: "\<forall>e \<in> set [(0 :: int, 128 :: size_t)]. fst e = 0"
    by simp
  have 5: "MBEDTLS_ERR_ENTROPY_NO_STRONG_SOURCE demo_env_finish_fails \<noteq> 0"
    by (simp add: demo_env_def demo_env_finish_fails_def)
  have w: "\<not> (\<exists>j. 0 \<le> j \<and> j < source_count (demo_filled 1) \<and>
              strong (source (demo_filled 1) ! nat j) =
                MBEDTLS_ENTROPY_SOURCE_STRONG demo_env_finish_fails)"
    by (simp add: demo_filled_def demo_slot_def demo_env_def demo_env_finish_fails_def)
  from gather_no_strong [OF demo_weak_gather_finish_fails 2 3 demo_weak_no_mix_failure 5] w
  have "(- 61 :: int) = MBEDTLS_ERR_ENTROPY_NO_STRONG_SOURCE demo_env_finish_fails" by simp
  moreover have "strong (source (demo_filled 1) ! nat 0) \<noteq>
      MBEDTLS_ENTROPY_SOURCE_STRONG demo_env_finish_fails"
    by (simp add: demo_filled_def demo_slot_def demo_env_def demo_env_finish_fails_def)
  moreover have "fst (sha_finish_ret demo_env_finish_fails []) \<noteq> 0"
    by (simp add: demo_env_finish_fails_def)
  ultimately show ?thesis
    using demo_weak_gather_finish_fails 2 5 demo_weak_no_mix_failure by simp
qed

text \<open>
  C3. The round does not zeroize \<^verbatim>\<open>buf\<close> on the exit taken when \<^verbatim>\<open>entropy_update\<close> fails:
  that exit is a \<^verbatim>\<open>return ret\<close> inside the loop, which does not pass through
  \<^verbatim>\<open>cleanup\<close>, while the exit for a failed poll is a \<^verbatim>\<open>goto cleanup\<close>. On the concrete
  build with a hash whose update call fails, a round over the dummy source returns the
  hash's error code with the 128 polled bytes still in \<^verbatim>\<open>buf\<close>.
\<close>

theorem gather_mix_failure_leaves_buf:
  "entropy_gather_internal demo_env_hash_fails (demo_filled 1) 0 (replicate 128 0) =
     Some (- 55, (demo_filled 1)\<lparr>accumulator_started := 1\<rparr>, 0, replicate 128 42, [(0, 128)])"
  by (simp add: run_defs demo_defs demo_filled_def demo_env_hash_fails_def)

text \<open>
  C4. \<open>P\<close> is any set of pairs of a context and an outside state that contains the
  initial pair and from each of whose members a gather round succeeds, leaves a source
  below its threshold, and ends in a member of \<open>P\<close> again: every gather round
  succeeds and some counter never reaches its threshold. Then
  \<^verbatim>\<open>mbedtls_entropy_func\<close> with \<open>len\<close> within one block returns
  \<^verbatim>\<open>MBEDTLS_ERR_ENTROPY_SOURCE_FAILED\<close> (the code the C function uses when the loop bound
  is exceeded) after exactly \<open>ENTROPY_MAX_LOOP + 1 = 257\<close> gather rounds, with the output
  buffer untouched. The function of the model is total, so the call returns.
\<close>

theorem func_loop_exceeded:
  assumes "len \<le> MBEDTLS_ENTROPY_BLOCK_SIZE E"
    and "MBEDTLS_ERR_ENTROPY_SOURCE_FAILED E \<noteq> 0"
    and "P ctx w"
    and "\<And>c v n. P c v \<Longrightarrow>
        \<exists>c' v' b' pl. entropy_gather_internal E c v (scratch n) = Some (0, c', v', b', pl) \<and>
          thresholds_done c' = 0 \<and> P c' v'"
  shows "\<exists>ctx' w' rounds. mbedtls_entropy_func E ctx w scratch output len =
            Some (MBEDTLS_ERR_ENTROPY_SOURCE_FAILED E, ctx', w', output, rounds) \<and>
          length rounds = 257"
proof -
  from entropy_func_loop_exceeded [of P E scratch ctx w 0 "[]", OF assms(4) assms(3)]
  obtain ctx' w' rs' where
    "entropy_func_loop E 0 ctx w scratch [] =
       Some (MBEDTLS_ERR_ENTROPY_SOURCE_FAILED E, ctx', w', rs')"
    "length rs' = 257"
    by (auto simp: ENTROPY_MAX_LOOP_def)
  with assms(1,2) show ?thesis
    by (simp add: mbedtls_entropy_func_def)
qed

theorem func_loop_exceeded_witness:
  "32 \<le> MBEDTLS_ENTROPY_BLOCK_SIZE demo_env \<and>
   MBEDTLS_ERR_ENTROPY_SOURCE_FAILED demo_env \<noteq> 0 \<and>
   entropy_gather_internal demo_env demo_idle 0 (demo_scratch 0) =
     Some (0, demo_idle, 1, replicate 128 0, [(0, 0)]) \<and>
   thresholds_done demo_idle = 0 \<and>
   fst (the (mbedtls_entropy_func demo_env demo_idle 0 demo_scratch (replicate 32 0) 32)) = - 60 \<and>
   length (snd (snd (snd (snd
     (the (mbedtls_entropy_func demo_env demo_idle 0 demo_scratch (replicate 32 0) 32)))))) = 257"
proof -
  have 1: "32 \<le> MBEDTLS_ENTROPY_BLOCK_SIZE demo_env"
    by (simp add: demo_env_def)
  have 2: "MBEDTLS_ERR_ENTROPY_SOURCE_FAILED demo_env \<noteq> 0"
    by (simp add: demo_env_def)
  have 3: "(\<lambda>c (v :: nat). c = demo_idle) demo_idle 0"
    by simp
  have 4: "\<And>c (v :: nat) n. c = demo_idle \<Longrightarrow>
        \<exists>c' v' b' pl. entropy_gather_internal demo_env c v (demo_scratch n) =
            Some (0, c', v', b', pl) \<and>
          thresholds_done c' = 0 \<and> c' = demo_idle"
    using demo_idle_gather demo_idle_not_done by (simp add: demo_scratch_def)
  from func_loop_exceeded [of 32 demo_env "\<lambda>c v. c = demo_idle" demo_idle 0 demo_scratch
      "replicate 32 0", OF 1 2 3 4]
  obtain ctx' w' rounds where
    "mbedtls_entropy_func demo_env demo_idle 0 demo_scratch (replicate 32 0) 32 =
       Some (MBEDTLS_ERR_ENTROPY_SOURCE_FAILED demo_env, ctx', w', replicate 32 0, rounds)"
    "length rounds = 257"
    by blast
  then show ?thesis
    using 1 2 demo_idle_gather [of 0] demo_idle_not_done
    by (simp add: demo_env_def demo_scratch_def)
qed

text \<open>
  C5, as the code has it. The second header byte is not \<open>min(len, 255)\<close>: the length is
  first clamped to one block by the pre-hash, so the byte is
  \<open>min(len, MBEDTLS_ENTROPY_BLOCK_SIZE)\<close>. On the concrete build, 100 bytes with tag 7
  make the accumulator absorb the header \<open>[7, 32]\<close>, not \<open>[7, 100]\<close>.
\<close>

theorem entropy_update_header_counterexample:
  "take 2 (accumulator (snd (entropy_update demo_env demo_ctx 7 (replicate 100 9))))
     \<noteq> spec_header 7 (replicate 100 9)"
  by (simp add: demo_update_100 spec_header_def)

text \<open>
  C5, amended. For every source tag and every data, when the hash calls before the
  payload succeed (the pre-hash if \<open>len\<close> exceeds the block size, the start of the
  accumulator if it was not started, the update with the header), \<^verbatim>\<open>entropy_update\<close>
  absorbs the two bytes \<open>source_id, min(len, MBEDTLS_ENTROPY_BLOCK_SIZE)\<close> and then the
  payload: the data itself, or its one-block digest if \<open>len\<close> exceeds the block size.
  \<open>a0\<close> is the hash state before the header. The block size is below 256 (it is 32
  or 64), so the second byte is that number.
\<close>

theorem entropy_update_header:
  assumes "MBEDTLS_ENTROPY_BLOCK_SIZE E \<le> 255"
    and "length data > MBEDTLS_ENTROPY_BLOCK_SIZE E \<longrightarrow> fst (sha_ret E data) = 0"
    and "accumulator_started ctx = 0 \<longrightarrow> fst (sha_starts_ret E (accumulator ctx)) = 0"
    and "a0 = (if accumulator_started ctx = 0 then snd (sha_starts_ret E (accumulator ctx))
               else accumulator ctx)"
    and "header = [source_id, of_nat (min (length data) (MBEDTLS_ENTROPY_BLOCK_SIZE E))]"
    and "payload = (if length data > MBEDTLS_ENTROPY_BLOCK_SIZE E
                    then take (MBEDTLS_ENTROPY_BLOCK_SIZE E) (snd (sha_ret E data)) else data)"
    and "fst (sha_update_ret E a0 header) = 0"
  shows "accumulator (snd (entropy_update E ctx source_id data)) =
           snd (sha_update_ret E (snd (sha_update_ret E a0 header)) payload) \<and>
         unat (header ! 1) = min (length data) (MBEDTLS_ENTROPY_BLOCK_SIZE E)"
proof -
  have u: "unat (header ! 1) = min (length data) (MBEDTLS_ENTROPY_BLOCK_SIZE E)"
    using assms(1) by (simp add: assms(5) unat_of_nat)
  show ?thesis
  proof (cases "length data > MBEDTLS_ENTROPY_BLOCK_SIZE E")
    case True
    then have m: "min (length data) (MBEDTLS_ENTROPY_BLOCK_SIZE E) = MBEDTLS_ENTROPY_BLOCK_SIZE E"
      by simp
    from True assms(2) have "fst (sha_ret E data) = 0" by simp
    with True show ?thesis
      using entropy_update_mix_accumulator [OF assms(3,4), of source_id
          "MBEDTLS_ENTROPY_BLOCK_SIZE E" "snd (sha_ret E data)"] assms(7) u
      by (simp add: entropy_update_def Let_def assms(5,6) m case_prod_unfold)
  next
    case False
    then have m: "min (length data) (MBEDTLS_ENTROPY_BLOCK_SIZE E) = length data"
      by simp
    from False show ?thesis
      using entropy_update_mix_accumulator [OF assms(3,4), of source_id "length data" data]
        assms(7) u
      by (simp add: entropy_update_def Let_def assms(5,6) m)
  qed
qed

theorem entropy_update_header_witness:
  "accumulator (snd (entropy_update demo_env demo_ctx 7 (replicate 100 9))) =
     [7, 32] @ replicate 32 9 \<and>
   unat ([7, 32 :: byte] ! 1) = min (length (replicate 100 (9 :: byte))) 32"
proof -
  have 0: "MBEDTLS_ENTROPY_BLOCK_SIZE demo_env \<le> 255"
    by (simp add: demo_env_def)
  have 1: "length (replicate 100 (9 :: byte)) > MBEDTLS_ENTROPY_BLOCK_SIZE demo_env \<longrightarrow>
        fst (sha_ret demo_env (replicate 100 9)) = 0"
    by (simp add: demo_env_def)
  have 2: "accumulator_started demo_ctx = 0 \<longrightarrow>
        fst (sha_starts_ret demo_env (accumulator demo_ctx)) = 0"
    by (simp add: demo_env_def)
  have 3: "[] = (if accumulator_started demo_ctx = 0
                 then snd (sha_starts_ret demo_env (accumulator demo_ctx))
                 else accumulator demo_ctx)"
    by (simp add: demo_env_def demo_ctx_def)
  have 4: "[7, 32] = [7 :: byte, of_nat (min (length (replicate 100 (9 :: byte)))
                                   (MBEDTLS_ENTROPY_BLOCK_SIZE demo_env))]"
    by (simp add: demo_env_def)
  have 5: "replicate 32 9 =
        (if length (replicate 100 (9 :: byte)) > MBEDTLS_ENTROPY_BLOCK_SIZE demo_env
         then take (MBEDTLS_ENTROPY_BLOCK_SIZE demo_env) (snd (sha_ret demo_env (replicate 100 9)))
         else replicate 100 9)"
    by (simp add: demo_env_def demo_digest_def)
  have 6: "fst (sha_update_ret demo_env [] [7, 32]) = 0"
    by (simp add: demo_env_def)
  from entropy_update_header [OF 0 1 2 3 4 5 6]
  show ?thesis by (simp add: demo_env_def)
qed

text \<open>
  C6. When \<^verbatim>\<open>mbedtls_entropy_func\<close> returns 0, every slot in use (every index below
  \<^verbatim>\<open>source_count\<close>, each of them inside the array) has \<^verbatim>\<open>size\<close> equal to 0. The error
  code \<^verbatim>\<open>MBEDTLS_ERR_ENTROPY_SOURCE_FAILED\<close> is a parameter; it is not 0, so that a return
  value of 0 means success.
\<close>

theorem func_success_resets_sizes:
  assumes "mbedtls_entropy_func E ctx w scratch output len = Some (0, ctx', w', output', rs')"
    and "MBEDTLS_ERR_ENTROPY_SOURCE_FAILED E \<noteq> 0"
  shows "\<forall>i. 0 \<le> i \<and> i < source_count ctx' \<longrightarrow>
           nat i < length (source ctx') \<and> size (source ctx' ! nat i) = 0"
proof -
  from assms obtain c1 where
    l: "entropy_func_loop E 0 ctx w scratch [] = Some (0, c1, w', rs')" and
    r: "entropy_func_reseed E c1 output len = Some (0, ctx', output')"
    by (auto simp: mbedtls_entropy_func_def split: if_splits option.splits prod.splits)
  from l assms(2) have rng: "nat (source_count c1) \<le> length (source c1)"
    by (rule entropy_func_loop_ok_range)
  from r have c: "source_count ctx' = source_count c1" and
    s: "source ctx' = map (\<lambda>s. s\<lparr>size := 0\<rparr>) (take (nat (source_count c1)) (source c1))
                        @ drop (nat (source_count c1)) (source c1)"
    using entropy_func_reseed_ok by blast+
  show ?thesis
  proof (intro allI impI)
    fix i assume i: "0 \<le> i \<and> i < source_count ctx'"
    then have lt: "nat i < nat (source_count c1)" using c by simp
    with rng have "nat i < length (source c1)" by linarith
    with lt show "nat i < length (source ctx') \<and> size (source ctx' ! nat i) = 0"
      by (simp add: s nth_append)
  qed
qed

theorem func_success_resets_sizes_witness:
  "MBEDTLS_ERR_ENTROPY_SOURCE_FAILED demo_env \<noteq> 0 \<and>
   mbedtls_entropy_func demo_env demo_pair 0 demo_scratch (replicate 32 0) 32 =
     Some (0, demo_pair_after, 1, replicate 26 42 @ [1, 4, 0, 1, 2, 3], [[(0, 128), (0, 4)]]) \<and>
   size (source demo_pair_after ! nat 0) = 0 \<and>
   size (source demo_pair_after ! nat 1) = 0"
proof -
  have ne: "MBEDTLS_ERR_ENTROPY_SOURCE_FAILED demo_env \<noteq> 0"
    by (simp add: demo_env_def)
  have c: "source_count demo_pair_after = 2"
    by (simp add: demo_pair_after_def)
  note t = func_success_resets_sizes [OF demo_pair_func ne, rule_format]
  from t [of 0] c have "size (source demo_pair_after ! nat 0) = 0" by simp
  moreover from t [of 1] c have "size (source demo_pair_after ! nat 1) = 0" by simp
  ultimately show ?thesis using ne demo_pair_func by blast
qed

text \<open>
  C7. Once \<^verbatim>\<open>source_count\<close> has reached \<^verbatim>\<open>MBEDTLS_ENTROPY_MAX_SOURCES\<close>, every call of
  \<^verbatim>\<open>mbedtls_entropy_add_source\<close>, whatever its arguments, returns
  \<^verbatim>\<open>MBEDTLS_ERR_ENTROPY_MAX_SOURCES\<close> and leaves the context as it was; and in every
  reachable context \<^verbatim>\<open>source_count\<close> is at most \<^verbatim>\<open>MBEDTLS_ENTROPY_MAX_SOURCES\<close>. The
  capacity is a parameter; it is not negative.
\<close>

theorem add_source_capacity:
  assumes "0 \<le> MBEDTLS_ENTROPY_MAX_SOURCES E"
  shows "(MBEDTLS_ENTROPY_MAX_SOURCES E \<le> source_count ctx \<longrightarrow>
            mbedtls_entropy_add_source E ctx f p thr str =
              Some (MBEDTLS_ERR_ENTROPY_MAX_SOURCES E, ctx)) \<and>
         (reachable E ctx' \<longrightarrow> source_count ctx' \<le> MBEDTLS_ENTROPY_MAX_SOURCES E)"
  using assms reachable_source_count_le [of E ctx']
  by (simp add: mbedtls_entropy_add_source_def)

theorem add_source_capacity_witness:
  "0 \<le> MBEDTLS_ENTROPY_MAX_SOURCES demo_env \<and>
   MBEDTLS_ENTROPY_MAX_SOURCES demo_env \<le> source_count (demo_filled 20) \<and>
   mbedtls_entropy_add_source demo_env (demo_filled 20) (Some entropy_dummy_source) None 16 0 =
     Some (- 62, demo_filled 20) \<and>
   reachable demo_env (demo_filled 20) \<and>
   source_count (demo_filled 20) \<le> 20"
proof -
  have h: "0 \<le> MBEDTLS_ENTROPY_MAX_SOURCES demo_env"
    by (simp add: demo_env_def)
  have m: "MBEDTLS_ENTROPY_MAX_SOURCES demo_env = 20"
    "MBEDTLS_ERR_ENTROPY_MAX_SOURCES demo_env = - 62"
    by (simp_all add: demo_env_def)
  have c: "source_count (demo_filled 20) = 20"
    by (simp add: demo_filled_def)
  have r: "reachable demo_env (demo_filled 20)"
    by (rule reachable_demo_filled) simp
  show ?thesis
    using add_source_capacity [OF h, of "demo_filled 20" "Some entropy_dummy_source" None 16 0
        "demo_filled 20"] r
    by (simp add: m c)
qed

text \<open>
  C8. \<open>polls\<close> is the log of the round: entry \<open>j\<close> is the return code and the
  \<^verbatim>\<open>olen\<close> of the poll of source \<open>j\<close>. When the poll of source \<open>k\<close> returns an error,
  the round returns that error code (a failing poll of \<^verbatim>\<open>entropy_poll.h\<close> returns
  \<^verbatim>\<open>MBEDTLS_ERR_ENTROPY_SOURCE_FAILED\<close>), the log ends with that poll (no source after
  \<open>k\<close> is polled), the polls before it succeeded, and the \<^verbatim>\<open>size\<close> of every source
  below \<open>k\<close> is its value before the round plus the \<^verbatim>\<open>olen\<close> of its poll, an addition
  of \<^verbatim>\<open>size_t\<close> values; the \<^verbatim>\<open>size\<close> of every other slot is unchanged.
\<close>

theorem gather_poll_failure:
  assumes "entropy_gather_internal E ctx w buf = Some (r, ctx', w', buf', polls)"
    and "k < length polls" and "fst (polls ! k) \<noteq> 0"
  shows "r = fst (polls ! k) \<and> length polls = k + 1 \<and>
         (\<forall>j < k. fst (polls ! j) = 0) \<and>
         (\<forall>j < length (source ctx). size (source ctx' ! j) =
            size (source ctx ! j) + (if j < k then snd (polls ! j) else 0))"
proof -
  from assms(1,2) have ne: "source_count ctx \<noteq> 0"
    by (auto simp: entropy_gather_internal_def split: if_splits)
  with assms(1) obtain ex b where
    l: "entropy_gather_loop E 0 0 ctx w buf [] = Some (ex, ctx', w', b, polls)"
    by (auto simp: entropy_gather_internal_def split: option.splits gather_exit.splits)
  note s = entropy_gather_loop_sizes [OF l]
  from assms(2,3) have "\<not> (\<forall>e \<in> set polls. fst e = 0)"
    using nth_mem by blast
  with s obtain r' where ex: "ex = Goto_cleanup r'" by blast
  with s have last: "fst (last polls) = r'" "polls \<noteq> []" by blast+
  have k: "k = length polls - 1"
  proof (rule ccontr)
    assume "k \<noteq> length polls - 1"
    with assms(2) have "k < length (butlast polls)" by simp
    then have "polls ! k \<in> set (butlast polls)"
      by (metis nth_butlast nth_mem)
    with s assms(3) show False by blast
  qed
  with last have rk: "fst (polls ! k) = r'" by (simp add: last_conv_nth)
  from ex l ne assms(1) have "r = r'"
    by (simp add: entropy_gather_internal_def)
  moreover have "\<forall>j < k. fst (polls ! j) = 0"
  proof (intro allI impI)
    fix j assume "j < k"
    with k have "j < length (butlast polls)" by simp
    then have "polls ! j \<in> set (butlast polls)"
      by (metis nth_butlast nth_mem)
    with s show "fst (polls ! j) = 0" by blast
  qed
  moreover from s ex k have "\<forall>j < length (source ctx). size (source ctx' ! j) =
            size (source ctx ! j) + (if j < k then snd (polls ! j) else 0)"
    by simp
  ultimately show ?thesis using rk k assms(2) by simp
qed

theorem gather_poll_failure_witness:
  "entropy_gather_internal demo_env demo_trio 0 (replicate 128 0) =
     Some (- 60, demo_trio_after, 2, replicate 128 0, [(0, 4), (- 60, 0)]) \<and>
   1 < length [(0 :: int, 4 :: size_t), (- 60, 0)] \<and>
   fst ([(0 :: int, 4 :: size_t), (- 60, 0)] ! 1) \<noteq> 0 \<and>
   size (source demo_trio_after ! 0) = size (source demo_trio ! 0) + 4 \<and>
   size (source demo_trio_after ! 1) = size (source demo_trio ! 1) \<and>
   size (source demo_trio_after ! 2) = size (source demo_trio ! 2)"
proof -
  have k: "1 < length [(0 :: int, 4 :: size_t), (- 60, 0)]" by simp
  have e: "fst ([(0 :: int, 4 :: size_t), (- 60, 0)] ! 1) \<noteq> 0" by simp
  have n: "length (source demo_trio) = 20" by (simp add: demo_trio_def)
  from gather_poll_failure [OF demo_trio_gather k e]
  have "\<forall>j < length (source demo_trio). size (source demo_trio_after ! j) =
          size (source demo_trio ! j) +
            (if j < 1 then snd ([(0 :: int, 4 :: size_t), (- 60, 0)] ! j) else 0)"
    by blast
  from this [rule_format, of 0] this [rule_format, of 1] this [rule_format, of 2]
  show ?thesis using demo_trio_gather by (simp add: n)
qed

text \<open>
  C9, as the code has it. \<^verbatim>\<open>mbedtls_entropy_func\<close> does not reset the started flag: its
  reseeding step restarts the hash itself and leaves the flag alone. On the concrete
  build, an extraction from a context whose flag is 1 succeeds and returns with the flag
  still 1.
\<close>

theorem started_flag_reset_counterexample:
  "accumulator_started demo_pair_after = 1 \<and>
   mbedtls_entropy_func demo_env demo_pair_after 1 demo_scratch (replicate 32 0) 32 =
     Some (0, demo_pair_after2, 2, replicate 26 42 @ [1, 4, 1, 1, 2, 3], [[(0, 128), (0, 4)]]) \<and>
   accumulator_started demo_pair_after2 = 1"
  using demo_pair_after_func by (simp add: demo_pair_after_def demo_pair_after2_def)

text \<open>
  C9, amended. Every mix (\<^verbatim>\<open>entropy_update\<close>) that returns 0 leaves the started flag
  set. Once the flag is set it stays set through every call of
  \<^verbatim>\<open>mbedtls_entropy_add_source\<close>, \<^verbatim>\<open>mbedtls_entropy_update_manual\<close>,
  \<^verbatim>\<open>mbedtls_entropy_gather\<close> and \<^verbatim>\<open>mbedtls_entropy_func\<close>, whatever their outcome; the flag
  is cleared only by \<^verbatim>\<open>mbedtls_entropy_init\<close> and \<^verbatim>\<open>mbedtls_entropy_free\<close>, never by an
  extraction.
\<close>

theorem started_flag_kept:
  "(entropy_update E ctx1 source_id data = (0, ctx1') \<longrightarrow> accumulator_started ctx1' = 1) \<and>
   (call E ctx ctx' \<and> accumulator_started ctx \<noteq> 0 \<longrightarrow> accumulator_started ctx' \<noteq> 0) \<and>
   (mbedtls_entropy_init E = Some ctx0 \<longrightarrow> accumulator_started ctx0 = 0) \<and>
   accumulator_started (mbedtls_entropy_free E ctx) = 0"
proof (intro conjI impI)
  assume "entropy_update E ctx1 source_id data = (0, ctx1')"
  then show "accumulator_started ctx1' = 1"
    by (rule entropy_update_ok_started)
next
  assume "call E ctx ctx' \<and> accumulator_started ctx \<noteq> 0"
  then have "call E ctx ctx'" and s: "accumulator_started ctx \<noteq> 0" by simp_all
  then show "accumulator_started ctx' \<noteq> 0"
  proof (induction rule: call.induct)
    case (c_add_source ctx f p thr str r ctx')
    then show ?case
      by (auto simp: mbedtls_entropy_add_source_def Let_def split: if_splits)
  next
    case (c_update_manual ctx data r ctx')
    then show ?case
      by (auto simp: mbedtls_entropy_update_manual_def dest: entropy_update_started)
  next
    case (c_gather ctx w buf r ctx' w' buf' polls)
    then show ?case
      by (auto simp: mbedtls_entropy_gather_def dest: entropy_gather_internal_started)
  next
    case (c_func ctx w scratch out len r ctx' w' out' rounds)
    then show ?case by (auto dest: mbedtls_entropy_func_started)
  qed
next
  assume "mbedtls_entropy_init E = Some ctx0"
  then show "accumulator_started ctx0 = 0"
    by (auto simp: mbedtls_entropy_init_def dest: add_sources_started)
next
  show "accumulator_started (mbedtls_entropy_free E ctx) = 0"
    by (simp add: mbedtls_entropy_free_def)
qed

theorem started_flag_kept_witness:
  "entropy_update demo_env demo_ctx 7 (replicate 100 9) =
     (0, demo_ctx\<lparr>accumulator_started := 1, accumulator := [7, 32] @ replicate 32 9\<rparr>) \<and>
   accumulator_started
     (demo_ctx\<lparr>accumulator_started := 1, accumulator := [7, 32] @ replicate 32 9\<rparr>) = 1 \<and>
   call demo_env demo_pair_after
     (demo_pair_after\<lparr>accumulator := [3, 2, 1, 0, 4, 1] @ replicate 26 42 @ [20, 0]\<rparr>) \<and>
   accumulator_started demo_pair_after \<noteq> 0 \<and>
   accumulator_started
     (demo_pair_after\<lparr>accumulator := [3, 2, 1, 0, 4, 1] @ replicate 26 42 @ [20, 0]\<rparr>) \<noteq> 0 \<and>
   mbedtls_entropy_init demo_env = Some demo_ctx \<and>
   accumulator_started demo_ctx = 0 \<and>
   accumulator_started (mbedtls_entropy_free demo_env demo_pair_after) = 0"
proof -
  have s: "accumulator_started demo_pair_after \<noteq> 0"
    by (simp add: demo_pair_after_def)
  have c: "call demo_env demo_pair_after
     (demo_pair_after\<lparr>accumulator := [3, 2, 1, 0, 4, 1] @ replicate 26 42 @ [20, 0]\<rparr>)"
    using demo_manual_empty by (rule c_update_manual)
  from started_flag_kept [of demo_env demo_ctx 7 "replicate 100 9"
      "demo_ctx\<lparr>accumulator_started := 1, accumulator := [7, 32] @ replicate 32 9\<rparr>"
      demo_pair_after
      "demo_pair_after\<lparr>accumulator := [3, 2, 1, 0, 4, 1] @ replicate 26 42 @ [20, 0]\<rparr>"
      demo_ctx]
  show ?thesis using s c demo_init demo_update_100 by blast
qed

text \<open>
  C10, as the code has it. When a hash call of the mix fails, \<^verbatim>\<open>entropy_update\<close> returns
  its error before the header is absorbed. On the concrete build with a hash whose
  update call fails, \<^verbatim>\<open>mbedtls_entropy_update_manual\<close> with \<open>len = 0\<close> on a started
  context returns the error and leaves the context exactly as it was.
\<close>

theorem update_manual_empty_counterexample:
  "mbedtls_entropy_update_manual demo_env_hash_fails demo_pair_after [] =
     (- 55, demo_pair_after)"
  by (simp add: mbedtls_entropy_update_manual_def run_defs demo_defs demo_pair_after_def
      demo_env_hash_fails_def)

text \<open>
  C10, amended. When the hash calls before the payload succeed (the start of the
  accumulator if it was not started, the update with the header),
  \<^verbatim>\<open>mbedtls_entropy_update_manual\<close> with \<open>len = 0\<close> absorbs the two header bytes
  \<open>MBEDTLS_ENTROPY_SOURCE_MANUAL, 0\<close> followed by the empty payload and leaves the
  started flag at 1; if the flag was not 1 before the call, the accumulator (flag and
  hash state) after the call is not what it was before. \<open>a0\<close> is the hash state
  before the header.
\<close>

theorem update_manual_empty:
  assumes "accumulator_started ctx = 0 \<longrightarrow> fst (sha_starts_ret E (accumulator ctx)) = 0"
    and "a0 = (if accumulator_started ctx = 0 then snd (sha_starts_ret E (accumulator ctx))
               else accumulator ctx)"
    and "header = [of_int (MBEDTLS_ENTROPY_SOURCE_MANUAL E), 0]"
    and "fst (sha_update_ret E a0 header) = 0"
    and "ctx' = snd (mbedtls_entropy_update_manual E ctx [])"
  shows "accumulator ctx' = snd (sha_update_ret E (snd (sha_update_ret E a0 header)) []) \<and>
         accumulator_started ctx' = 1 \<and>
         (accumulator_started ctx \<noteq> 1 \<longrightarrow>
            (accumulator_started ctx', accumulator ctx') \<noteq>
              (accumulator_started ctx, accumulator ctx))"
proof -
  have "entropy_update E ctx (of_int (MBEDTLS_ENTROPY_SOURCE_MANUAL E)) [] =
          entropy_update_mix E ctx (of_int (MBEDTLS_ENTROPY_SOURCE_MANUAL E)) [] 0"
    by (simp add: entropy_update_def)
  with entropy_update_mix_accumulator [OF assms(1,2),
      of "of_int (MBEDTLS_ENTROPY_SOURCE_MANUAL E)" 0 "[]"] assms(3,4)
  have "ctx' = ctx\<lparr>accumulator_started := 1,
            accumulator := snd (sha_update_ret E (snd (sha_update_ret E a0 header)) [])\<rparr>"
    by (simp add: assms(5) mbedtls_entropy_update_manual_def)
  then show ?thesis by auto
qed

theorem update_manual_empty_witness:
  "accumulator (snd (mbedtls_entropy_update_manual demo_env demo_ctx [])) = [20, 0] \<and>
   accumulator_started (snd (mbedtls_entropy_update_manual demo_env demo_ctx [])) = 1 \<and>
   accumulator_started demo_ctx \<noteq> 1 \<and>
   (accumulator_started (snd (mbedtls_entropy_update_manual demo_env demo_ctx [])),
    accumulator (snd (mbedtls_entropy_update_manual demo_env demo_ctx []))) \<noteq>
     (accumulator_started demo_ctx, accumulator demo_ctx)"
proof -
  have 1: "accumulator_started demo_ctx = 0 \<longrightarrow>
        fst (sha_starts_ret demo_env (accumulator demo_ctx)) = 0"
    by (simp add: demo_env_def)
  have 2: "[] =
        (if accumulator_started demo_ctx = 0
         then snd (sha_starts_ret demo_env (accumulator demo_ctx))
         else accumulator demo_ctx)"
    by (simp add: demo_ctx_def demo_env_def)
  have 3: "[20, 0] = [of_int (MBEDTLS_ENTROPY_SOURCE_MANUAL demo_env), 0 :: byte]"
    by (simp add: demo_env_def)
  have 4: "fst (sha_update_ret demo_env [] [20, 0]) = 0"
    by (simp add: demo_env_def)
  have 5: "accumulator_started demo_ctx \<noteq> 1"
    by (simp add: demo_ctx_def)
  from update_manual_empty [OF 1 2 3 4 refl] 5
  show ?thesis by (simp add: demo_env_def)
qed

end
